theory Spec2Isabelle
  imports Complex_Main
begin

section \<open>Pharma Insights API: a shallow embedding of backend/server.py\<close>

text \<open>
  Conventions of the embedding.
  \<^item> A calendar day is its proleptic Gregorian ordinal (Python's \<open>date.toordinal()\<close>), an
    \<open>int\<close>. The source formats every day with \<open>strftime("%Y-%m-%d")\<close>; two days have the
    same text exactly when they are the same day, and the texts sort like the ordinals,
    so a row carries the ordinal where the source carries the text. The clock reading
    \<open>datetime.now(timezone.utc)\<close> is an argument of every function that reads the clock;
    it is a current date, so that the 180 days before it are days a \<open>datetime\<close> can
    hold. The forecast adds days to a date: what happens past the last day of
    \<open>datetime\<close> is part of the model.
  \<^item> Python's \<open>float\<close> is an IEEE 754 double: a real number, and every arithmetic operation
    on floats yields the exact result rounded to the nearest double (\<open>fl\<close>). A value that
    \<open>round(x, 2)\<close> returns is carried as the decimal with two places it stands for, and
    the sums of such values that the metrics endpoint reports are taken exactly.
  \<^item> The random module is an explicit source of draws: the k-th result of each of the
    library calls the program makes.
\<close>

subsection \<open>Python helpers\<close>

text \<open>\<open>xs[:k]\<close>: a negative stop counts from the end, and no stop is out of range.\<close>

definition py_slice_to :: "'a list \<Rightarrow> int \<Rightarrow> 'a list" where
  "py_slice_to xs k =
     (if k < 0 then take (nat (int (length xs) + k)) xs else take (nat k) xs)"

text \<open>\<open>xs[k:]\<close>, with the same reading of a negative start.\<close>

definition py_slice_from :: "'a list \<Rightarrow> int \<Rightarrow> 'a list" where
  "py_slice_from xs k =
     (if k < 0 then drop (nat (int (length xs) + k)) xs else drop (nat k) xs)"

text \<open>\<open>int(x)\<close> on a float truncates towards zero.\<close>

definition py_int :: "real \<Rightarrow> int" where
  "py_int x = (if 0 \<le> x then \<lfloor>x\<rfloor> else \<lceil>x\<rceil>)"

text \<open>
  \<open>round(x, 2)\<close>: the exact value of the double \<open>x\<close> to the nearest multiple of 1/100, a tie
  going to the even one.
\<close>

definition round_half_even :: "real \<Rightarrow> int" where
  "round_half_even y =
     (let f = \<lfloor>y\<rfloor>; d = y - of_int f
      in if d < 1 / 2 then f
         else if 1 / 2 < d then f + 1
         else if even f then f else f + 1)"

definition py_round2 :: "real \<Rightarrow> real" where
  "py_round2 x = of_int (round_half_even (x * 100)) / 100"

subsection \<open>Floating point\<close>

text \<open>
  The exponent of the binade of a positive number: the \<open>e\<close> for which \<open>a / 2 ^ e\<close> lies in
  \<open>[2 ^ 52, 2 ^ 53)\<close>, found by halving or doubling, and not below -1074, where the
  subnormal doubles begin.
\<close>

function exp_up :: "real \<Rightarrow> int \<Rightarrow> int" where
  "exp_up a e = (if 2 ^ 53 \<le> a then exp_up (a / 2) (e + 1) else e)"
  by pat_completeness auto
termination
proof (relation "measure (\<lambda>(a, e). nat \<lceil>a\<rceil>)")
  show "wf (measure (\<lambda>(a, e). nat \<lceil>a\<rceil>))" by simp
next
  fix a :: real and e :: int
  assume a: "2 ^ 53 \<le> a"
  then have "a / 2 \<le> a - 1" by simp
  then have "\<lceil>a / 2\<rceil> \<le> \<lceil>a - 1\<rceil>" by (rule ceiling_mono)
  then have "\<lceil>a / 2\<rceil> < \<lceil>a\<rceil>" by simp
  moreover from a have "0 < \<lceil>a\<rceil>" by (simp add: ceiling_less_iff less_ceiling_iff)
  ultimately show "((a / 2, e + 1), (a, e)) \<in> measure (\<lambda>(a, e). nat \<lceil>a\<rceil>)"
    by simp
qed

function exp_down :: "real \<Rightarrow> int \<Rightarrow> int" where
  "exp_down a e = (if a < 2 ^ 52 \<and> - 1074 < e then exp_down (a * 2) (e - 1) else e)"
  by pat_completeness auto
termination
  by (relation "measure (\<lambda>(a, e). nat (e + 1074))") auto

declare exp_up.simps [simp del] exp_down.simps [simp del]

definition pow2 :: "int \<Rightarrow> real" where
  "pow2 e = (if 0 \<le> e then 2 ^ nat e else 1 / 2 ^ nat (- e))"

text \<open>
  Rounding to the nearest double, a tie going to the even significand. No draw and no
  date the program works with brings a value near \<open>2 ^ 1024\<close>, where a double overflows.
\<close>

definition fl :: "real \<Rightarrow> real" where
  "fl x =
     (if x = 0 then 0
      else (let a = \<bar>x\<bar>;
                e = (if 2 ^ 53 \<le> a then exp_up a 0 else exp_down a 0);
                m = round_half_even (a / pow2 e)
            in sgn x * of_int m * pow2 e))"

text \<open>The four operations on floats; an \<open>int\<close> operand is converted first, exactly.\<close>

definition fadd :: "real \<Rightarrow> real \<Rightarrow> real" where
  "fadd x y = fl (x + y)"

definition fsub :: "real \<Rightarrow> real \<Rightarrow> real" where
  "fsub x y = fl (x - y)"

definition fmul :: "real \<Rightarrow> real \<Rightarrow> real" where
  "fmul x y = fl (x * y)"

definition fdiv :: "real \<Rightarrow> real \<Rightarrow> real" where
  "fdiv x y = fl (x / y)"

subsection \<open>Strings and dates\<close>

text \<open>\<open>str.lower()\<close> on the ASCII letters, which are the letters of the catalog names.\<close>

definition lower_char :: "char \<Rightarrow> char" where
  "lower_char c =
     (let n = (of_char c :: nat) in if 65 \<le> n \<and> n \<le> 90 then char_of (n + 32) else c)"

definition lower :: "string \<Rightarrow> string" where
  "lower s = map lower_char s"

text \<open>\<open>datetime.weekday()\<close>: Monday is 0, Sunday is 6; ordinal 1 was a Monday.\<close>

definition weekday :: "int \<Rightarrow> int" where
  "weekday d = (d + 6) mod 7"

text \<open>The ordinal of 9999-12-31, the last day a \<open>datetime\<close> can hold.\<close>

definition max_ordinal :: int where
  "max_ordinal = 3652059"

subsection \<open>The random source\<close>

record entropy =
  randint_draws :: "nat \<Rightarrow> int"
  random_draws :: "nat \<Rightarrow> real"
  uuid4_draws :: "nat \<Rightarrow> string"

text \<open>
  \<open>random.randint(50, 200)\<close> returns an integer of that range and \<open>random.random()\<close> a
  float in [0, 1): the contract of the library, for every draw.
\<close>

definition entropy_ok :: "entropy \<Rightarrow> bool" where
  "entropy_ok e =
     (\<forall>k. 50 \<le> randint_draws e k \<and> randint_draws e k \<le> 200
          \<and> 0 \<le> random_draws e k \<and> random_draws e k < 1)"

text \<open>\<open>random.uniform(a, b)\<close> is \<open>a + (b - a) * random()\<close>, in floats.\<close>

definition uniform :: "real \<Rightarrow> real \<Rightarrow> real \<Rightarrow> real" where
  "uniform a b u = fadd a (fmul (fsub b a) u)"

subsection \<open>Catalog and generated sales\<close>

record drug =
  name :: string
  category :: string
  base_price :: real

definition DRUGS_DATA :: "drug list" where
  "DRUGS_DATA =
     [\<lparr>name = ''Paracetamol'', category = ''Pain Relief'', base_price = fl (599 / 100)\<rparr>,
      \<lparr>name = ''Amoxicillin'', category = ''Antibiotics'', base_price = fl (1299 / 100)\<rparr>,
      \<lparr>name = ''Omeprazole'', category = ''Digestive'', base_price = fl (849 / 100)\<rparr>,
      \<lparr>name = ''Metformin'', category = ''Diabetes'', base_price = fl (1599 / 100)\<rparr>,
      \<lparr>name = ''Lisinopril'', category = ''Cardiovascular'', base_price = fl (1899 / 100)\<rparr>,
      \<lparr>name = ''Atorvastatin'', category = ''Cardiovascular'', base_price = fl (2249 / 100)\<rparr>,
      \<lparr>name = ''Ibuprofen'', category = ''Pain Relief'', base_price = fl (699 / 100)\<rparr>,
      \<lparr>name = ''Ciprofloxacin'', category = ''Antibiotics'', base_price = fl (1499 / 100)\<rparr>,
      \<lparr>name = ''Amlodipine'', category = ''Cardiovascular'', base_price = fl (1699 / 100)\<rparr>,
      \<lparr>name = ''Gabapentin'', category = ''Neurological'', base_price = fl (2499 / 100)\<rparr>]"

record sale =
  sale_id :: string
  drug_name :: string
  sale_category :: string
  units_sold :: int
  revenue :: real
  date :: int

text \<open>
  The body of the inner loop: row number \<open>k\<close> of a call (counted from 0) takes the k-th
  \<open>randint\<close> and \<open>uuid4\<close> and the draws \<open>2k\<close> and \<open>2k + 1\<close> of \<open>random()\<close>.
\<close>

definition make_sale :: "entropy \<Rightarrow> int \<Rightarrow> nat \<Rightarrow> drug \<Rightarrow> sale" where
  "make_sale e d k g =
     (let base_units = randint_draws e k;
          day_factor = (if weekday d < 5 then fl (12 / 10) else fl (8 / 10));
          units = py_int (fmul (fmul (of_int base_units) day_factor)
                            (uniform (fl (7 / 10)) (fl (13 / 10)) (random_draws e (2 * k))));
          rev = py_round2 (fmul (fmul (of_int units) (base_price g))
                             (uniform (fl (9 / 10)) (fl (11 / 10)) (random_draws e (2 * k + 1))))
      in \<lparr>sale_id = uuid4_draws e k, drug_name = name g, sale_category = category g,
          units_sold = units, revenue = rev, date = d\<rparr>)"

text \<open>\<open>for drug in DRUGS_DATA\<close>, with \<open>k\<close> rows appended before this drug.\<close>

fun day_rows :: "entropy \<Rightarrow> int \<Rightarrow> nat \<Rightarrow> drug list \<Rightarrow> sale list" where
  "day_rows e d k [] = []"
| "day_rows e d k (g # gs) = make_sale e d k g # day_rows e d (Suc k) gs"

text \<open>\<open>for days_ago in range(180)\<close>, with \<open>k\<close> rows appended before this day.\<close>

fun all_rows :: "entropy \<Rightarrow> int \<Rightarrow> nat \<Rightarrow> nat list \<Rightarrow> sale list" where
  "all_rows e base_date k [] = []"
| "all_rows e base_date k (days_ago # rest) =
     day_rows e (base_date - int days_ago) k DRUGS_DATA
     @ all_rows e base_date (k + length DRUGS_DATA) rest"

definition generate_mock_sales_data :: "entropy \<Rightarrow> int \<Rightarrow> sale list" where
  "generate_mock_sales_data e base_date = all_rows e base_date 0 [0..<180]"

subsection \<open>GET /sales\<close>

record sales_response =
  sales :: "sale list"
  total :: nat

text \<open>
  The handler body, for a request that passed \<open>get_current_user\<close>. An absent and an empty
  \<open>drug\<close> are both false in \<open>if drug\<close>.
\<close>

definition get_sales :: "entropy \<Rightarrow> int \<Rightarrow> int \<Rightarrow> string option \<Rightarrow> sales_response" where
  "get_sales e now days drug_filter =
     (let all_sales = generate_mock_sales_data e now;
          filtered_sales = py_slice_to all_sales (days * int (length DRUGS_DATA));
          filtered_sales' =
            (case drug_filter of
               None \<Rightarrow> filtered_sales
             | Some dr \<Rightarrow>
                 if dr = [] then filtered_sales
                 else filter (\<lambda>s. lower (drug_name s) = lower dr) filtered_sales)
      in \<lparr>sales = filtered_sales', total = length filtered_sales'\<rparr>)"

subsection \<open>Dictionaries\<close>

text \<open>
  A \<open>dict\<close> keeps its keys in insertion order and holds each key once: an association
  list. \<open>d[k] = v\<close> replaces the value of a present key in place and appends an absent one.
\<close>

fun dict_set :: "'k \<Rightarrow> 'v \<Rightarrow> ('k \<times> 'v) list \<Rightarrow> ('k \<times> 'v) list" where
  "dict_set k v [] = [(k, v)]"
| "dict_set k v ((k', v') # kvs) =
     (if k' = k then (k, v) # kvs else (k', v') # dict_set k v kvs)"

text \<open>\<open>d.get(k, default)\<close>.\<close>

definition dict_get :: "('k \<times> 'v) list \<Rightarrow> 'k \<Rightarrow> 'v \<Rightarrow> 'v" where
  "dict_get d k dflt = (case map_of d k of None \<Rightarrow> dflt | Some v \<Rightarrow> v)"

text \<open>
  \<open>d[k] += x\<close> and \<open>d[k][field] += x\<close>, which the program executes only for a key it has
  just made sure is present.
\<close>

fun dict_modify :: "'k \<Rightarrow> ('v \<Rightarrow> 'v) \<Rightarrow> ('k \<times> 'v) list \<Rightarrow> ('k \<times> 'v) list" where
  "dict_modify k f [] = []"
| "dict_modify k f ((k', v) # kvs) =
     (if k' = k then (k', f v) # kvs else (k', v) # dict_modify k f kvs)"

datatype py_error = KeyError string | OverflowError

subsection \<open>GET /sales/metrics\<close>

record breakdown_row =
  row_name :: string
  row_revenue :: real
  row_units :: int

record metrics_response =
  total_revenue :: real
  total_units :: int
  avg_daily_demand :: real
  top_drugs :: "breakdown_row list"
  categories :: "breakdown_row list"
  period :: string

text \<open>The loop that fills \<open>drug_revenues\<close> and \<open>drug_units\<close>.\<close>

definition drug_step ::
    "sale \<Rightarrow> (string \<times> real) list \<times> (string \<times> int) list
          \<Rightarrow> (string \<times> real) list \<times> (string \<times> int) list" where
  "drug_step s acc =
     (case acc of (drug_revenues, drug_units) \<Rightarrow>
        (dict_set (drug_name s) (dict_get drug_revenues (drug_name s) 0 + revenue s) drug_revenues,
         dict_set (drug_name s) (dict_get drug_units (drug_name s) 0 + units_sold s) drug_units))"

text \<open>The loop that fills \<open>category_data\<close>; a value is the pair (revenue, units).\<close>

definition category_step :: "sale \<Rightarrow> (string \<times> real \<times> int) list \<Rightarrow> (string \<times> real \<times> int) list" where
  "category_step s category_data =
     (let category_data' =
            (if sale_category s \<in> set (map fst category_data) then category_data
             else dict_set (sale_category s) (0, 0) category_data)
      in dict_modify (sale_category s) (\<lambda>(r, u). (r + revenue s, u + units_sold s))
           category_data')"

text \<open>
  The \<open>top_drugs\<close> comprehension; \<open>drug_units[name]\<close> raises \<open>KeyError\<close> on an absent name.
\<close>

fun top_drug_rows ::
    "(string \<times> real) list \<Rightarrow> (string \<times> int) list \<Rightarrow> py_error + breakdown_row list" where
  "top_drug_rows [] drug_units = Inr []"
| "top_drug_rows ((nm, amount) # rest) drug_units =
     (case map_of drug_units nm of
        None \<Rightarrow> Inl (KeyError nm)
      | Some units \<Rightarrow>
          (case top_drug_rows rest drug_units of
             Inl err \<Rightarrow> Inl err
           | Inr rows \<Rightarrow>
               Inr (\<lparr>row_name = nm, row_revenue = py_round2 amount, row_units = units\<rparr> # rows)))"

text \<open>
  The handler body. \<open>sorted(..., key=lambda x: x[1], reverse=True)\<close> is stable: it is the
  stable ascending sort on the negated revenue.
\<close>

definition get_sales_metrics :: "entropy \<Rightarrow> int \<Rightarrow> py_error + metrics_response" where
  "get_sales_metrics e now =
     (let all_sales = generate_mock_sales_data e now;
          recent_sales = py_slice_to all_sales (30 * int (length DRUGS_DATA));
          total_rev = sum_list (map revenue recent_sales);
          total_un = sum_list (map units_sold recent_sales);
          avg_daily = fdiv (of_int total_un) 30;
          (drug_revenues, drug_units) = fold drug_step recent_sales ([], []);
          top = take 5 (sort_key (\<lambda>(nm, amount). - amount) drug_revenues);
          category_data = fold category_step recent_sales []
      in case top_drug_rows top drug_units of
           Inl err \<Rightarrow> Inl err
         | Inr top_rows \<Rightarrow>
             Inr \<lparr>total_revenue = py_round2 total_rev,
                  total_units = total_un,
                  avg_daily_demand = py_round2 avg_daily,
                  top_drugs = top_rows,
                  categories =
                    map (\<lambda>(cat, r, u). \<lparr>row_name = cat, row_revenue = py_round2 r, row_units = u\<rparr>)
                      category_data,
                  period = ''Last 30 days''\<rparr>)"

subsection \<open>GET /predict\<close>

text \<open>
  The outcome of \<open>requests.get(...)\<close> followed by \<open>response.json()\<close>: an exception (no
  connection, a timeout, a body that is not JSON, ...) or the decoded body.
\<close>

datatype 'j upstream = Raised string | Body 'j

record forecast =
  historical_dates :: "int list"
  historical_values :: "int list"
  forecast_dates :: "int list"
  predicted :: "int list"
  drug_label :: string
  forecast_status :: string
  forecast_model :: string
  ci_lower :: "int list"
  ci_upper :: "int list"

text \<open>
  What the handler returns; the framework sends a returned value with status 200, and
  an exception that leaves the handler is not a returned value.
  \<open>ErrorPayload error status\<close> is the dict with the keys \<open>error\<close> and \<open>status\<close>.
\<close>

datatype 'j forecast_response = Relayed 'j | ErrorPayload string string | Mock forecast

text \<open>The loop that groups units by date; \<open>if drug and ...: continue\<close> skips a row.\<close>

definition daily_step :: "string option \<Rightarrow> sale \<Rightarrow> (int \<times> int) list \<Rightarrow> (int \<times> int) list" where
  "daily_step drug_filter s daily_data =
     (if (case drug_filter of
            None \<Rightarrow> False
          | Some dr \<Rightarrow> dr \<noteq> [] \<and> lower (drug_name s) \<noteq> lower dr)
      then daily_data
      else (let daily_data' =
                  (if date s \<in> set (map fst daily_data) then daily_data
                   else dict_set (date s) 0 daily_data)
            in dict_modify (date s) (\<lambda>v. v + units_sold s) daily_data'))"

text \<open>
  Lines 343 to 348: the average and the trend. \<open>actual_values[-7:]\<close> is a slice,
  \<open>actual_values[-1]\<close> and \<open>actual_values[-7]\<close> index from the end, in range under the guard.
\<close>

definition moving_average :: "int list \<Rightarrow> real \<times> real" where
  "moving_average actual_values =
     (if 7 < length actual_values
      then (fdiv (of_int (sum_list (py_slice_from actual_values (- 7)))) 7,
            (if 7 < length actual_values
             then fdiv (of_int (actual_values ! (length actual_values - 1)
                                - actual_values ! (length actual_values - 7))) 7
             else 0))
      else ((if actual_values \<noteq> []
             then fdiv (of_int (sum_list actual_values)) (of_nat (length actual_values))
             else 100),
            0))"

text \<open>
  One prediction of the loop \<open>for i in range(1, days + 1)\<close>:
  \<open>avg + (trend * i) + random.uniform(-avg * 0.1, avg * 0.1)\<close>, then \<open>max(0, int(pred))\<close>. The
  generator has drawn \<open>drawn\<close> values of \<open>random()\<close> before the loop starts.
\<close>

definition predict_value :: "entropy \<Rightarrow> nat \<Rightarrow> real \<Rightarrow> real \<Rightarrow> int \<Rightarrow> int" where
  "predict_value e drawn avg trend i =
     (let pred = fadd (fadd avg (fmul trend (of_int i)))
                   (uniform (fmul (- avg) (fl (1 / 10))) (fmul avg (fl (1 / 10)))
                      (random_draws e (drawn + nat (i - 1))))
      in max 0 (py_int pred))"

text \<open>
  The handler body, with the configured \<open>ML_API_URL\<close> and the outcome of the outbound
  call as arguments. The sorted keys and their values are the items sorted by key.
  \<open>last_date + timedelta(days=i)\<close> raises \<open>OverflowError\<close> in the loop as soon as the date
  passes the last day of \<open>datetime\<close>, which happens exactly when the last date of the
  horizon does.
\<close>

definition get_forecast ::
    "string option \<Rightarrow> (string \<Rightarrow> string option \<Rightarrow> int \<Rightarrow> 'j upstream) \<Rightarrow> entropy \<Rightarrow> int
       \<Rightarrow> string option \<Rightarrow> int \<Rightarrow> py_error + 'j forecast_response" where
  "get_forecast ml_api_url requests_get_json e now drug_filter days =
     (if (case ml_api_url of None \<Rightarrow> False | Some url \<Rightarrow> url \<noteq> [])
      then (case requests_get_json (the ml_api_url @ ''/predict'') drug_filter days of
              Body j \<Rightarrow> Inr (Relayed j)
            | Raised exc \<Rightarrow> Inr (ErrorPayload ''Failed to fetch from external ML API'' ''error''))
      else
        (let all_sales = generate_mock_sales_data e now;
             recent_sales = py_slice_to all_sales (60 * int (length DRUGS_DATA));
             daily_data = fold (daily_step drug_filter) recent_sales [];
             sorted_items = sort_key fst daily_data;
             sorted_dates = map fst sorted_items;
             actual_values = map snd sorted_items;
             (avg, trend) = moving_average actual_values;
             last_date = (if sorted_dates \<noteq> [] then last sorted_dates else now);
             future_dates = map (\<lambda>i. last_date + i) [1..days];
             predicted_values =
               map (predict_value e (2 * length all_sales) avg trend) [1..days]
         in if 1 \<le> days \<and> max_ordinal < last_date + days then Inl OverflowError
            else
              Inr (Mock
                \<lparr>historical_dates = py_slice_from sorted_dates (- 30),
                 historical_values = py_slice_from actual_values (- 30),
                 forecast_dates = future_dates,
                 predicted = predicted_values,
                 drug_label =
                   (case drug_filter of
                      None \<Rightarrow> ''All Drugs''
                    | Some dr \<Rightarrow> if dr \<noteq> [] then dr else ''All Drugs''),
                 forecast_status = ''mock'',
                 forecast_model = ''SARIMA (Mock)'',
                 ci_lower =
                   map (\<lambda>v. max 0 (py_int (fmul (of_int v) (fl (85 / 100))))) predicted_values,
                 ci_upper =
                   map (\<lambda>v. py_int (fmul (of_int v) (fl (115 / 100)))) predicted_values\<rparr>)))"

subsection \<open>Tokens\<close>

text \<open>
  Time is counted in whole seconds since the epoch, the resolution of a token's expiry;
  a \<open>timedelta\<close> is a number of seconds.
\<close>

definition timedelta_minutes :: "int \<Rightarrow> int" where
  "timedelta_minutes m = m * 60"

definition ACCESS_TOKEN_EXPIRE_MINUTES :: int where
  "ACCESS_TOKEN_EXPIRE_MINUTES = 1440"

text \<open>The payload of a token: the two claims the program writes or reads.\<close>

record jwt_claims =
  claim_sub :: "string option"
  claim_exp :: "int option"

text \<open>
  A token string either decodes to a payload signed under some key, or it does not decode.
  The signature is symbolic: it is valid for the key it was made with and for no other.
\<close>

datatype token = JWS string jwt_claims | Malformed string

datatype jwt_error = DecodeError | InvalidSignatureError | ExpiredSignatureError

text \<open>
  Modelled from the spec: \<open>jwt.encode\<close> and \<open>jwt.decode\<close> of the JWT library, which the
  source imports and which is not part of the repository. Section 4.3: the payload is
  signed with the process-wide secret key; verification fails on a bad signature, on a
  malformed payload, or when \<open>now \<ge> exp\<close>, and a token is valid strictly while
  \<open>now < exp\<close>. Each failure is a \<open>PyJWTError\<close>.
\<close>

definition jwt_encode :: "jwt_claims \<Rightarrow> string \<Rightarrow> token" where
  "jwt_encode payload key = JWS key payload"

definition jwt_decode :: "token \<Rightarrow> string \<Rightarrow> int \<Rightarrow> jwt_error + jwt_claims" where
  "jwt_decode tok key now =
     (case tok of
        Malformed _ \<Rightarrow> Inl DecodeError
      | JWS k payload \<Rightarrow>
          if k \<noteq> key then Inl InvalidSignatureError
          else (case claim_exp payload of
                  None \<Rightarrow> Inr payload
                | Some x \<Rightarrow> if x \<le> now then Inl ExpiredSignatureError else Inr payload))"

text \<open>
  \<open>create_access_token(data, expires_delta)\<close> with the secret key and the clock as
  arguments. \<open>if expires_delta\<close> is false for an absent and for a zero \<open>timedelta\<close>.
\<close>

definition create_access_token :: "string \<Rightarrow> int \<Rightarrow> jwt_claims \<Rightarrow> int option \<Rightarrow> token" where
  "create_access_token secret_key now data expires_delta =
     (let expire =
            (case expires_delta of
               None \<Rightarrow> now + timedelta_minutes 15
             | Some delta \<Rightarrow> if delta \<noteq> 0 then now + delta else now + timedelta_minutes 15);
          to_encode = data\<lparr>claim_exp := Some expire\<rparr>
      in jwt_encode to_encode secret_key)"

subsection \<open>The users collection and the authorization dependency\<close>

datatype http_exception = HTTPException nat string

text \<open>
  A stored document maps field names to values; the collection is searched in
  insertion order. \<open>find_one({"email": email}, projection)\<close> returns the first document
  whose email is the given one, without the fields the projection switches off.
\<close>

type_synonym document = "string \<Rightarrow> string option"

definition project_out :: "string list \<Rightarrow> document \<Rightarrow> document" where
  "project_out hidden doc = (\<lambda>field. if field \<in> set hidden then None else doc field)"

definition find_one :: "document list \<Rightarrow> string \<Rightarrow> string list \<Rightarrow> document option" where
  "find_one users email hidden =
     map_option (project_out hidden) (find (\<lambda>doc. doc ''email'' = Some email) users)"

text \<open>
  The body of \<open>get_current_user\<close>, for the credentials the bearer scheme extracted. The
  \<open>HTTPException\<close> raised inside the \<open>try\<close> is not a \<open>PyJWTError\<close> and leaves the handler.
\<close>

definition get_current_user ::
    "string \<Rightarrow> document list \<Rightarrow> int \<Rightarrow> token \<Rightarrow> http_exception + document" where
  "get_current_user secret_key users now credentials =
     (case jwt_decode credentials secret_key now of
        Inl err \<Rightarrow> Inl (HTTPException 401 ''Invalid token'')
      | Inr payload \<Rightarrow>
          (case claim_sub payload of
             None \<Rightarrow> Inl (HTTPException 401 ''Invalid token'')
           | Some email \<Rightarrow>
               (case find_one users email [''_id'', ''password_hash''] of
                  None \<Rightarrow> Inl (HTTPException 401 ''User not found'')
                | Some user \<Rightarrow> Inr user)))"

text \<open>
  Modelled from the spec: the bearer scheme \<open>security = HTTPBearer()\<close> of the web
  framework, which is not part of the repository. Section 4.4, step 1: an
  \<open>Authorization: Bearer <token>\<close> header is required, and its absence fails
  \<open>Unauthenticated\<close>, which section 7 maps to status 401.
\<close>

definition security :: "token option \<Rightarrow> http_exception + token" where
  "security authorization =
     (case authorization of
        None \<Rightarrow> Inl (HTTPException 401 ''Not authenticated'')
      | Some credentials \<Rightarrow> Inr credentials)"

text \<open>
  \<open>Depends(get_current_user)\<close>: the framework resolves \<open>security\<close>, then
  \<open>get_current_user\<close>, and calls the handler with the user only when both succeeded.
\<close>

definition depends_get_current_user ::
    "string \<Rightarrow> document list \<Rightarrow> int \<Rightarrow> token option \<Rightarrow> http_exception + document" where
  "depends_get_current_user secret_key users now authorization =
     (case security authorization of
        Inl err \<Rightarrow> Inl err
      | Inr credentials \<Rightarrow> get_current_user secret_key users now credentials)"

definition protected_route ::
    "(document \<Rightarrow> 'r) \<Rightarrow> string \<Rightarrow> document list \<Rightarrow> int \<Rightarrow> token option \<Rightarrow> http_exception + 'r" where
  "protected_route handler secret_key users now authorization =
     (case depends_get_current_user secret_key users now authorization of
        Inl err \<Rightarrow> Inl err
      | Inr current_user \<Rightarrow> Inr (handler current_user))"

text \<open>GET /auth/me.\<close>

definition get_me :: "document \<Rightarrow> document" where
  "get_me current_user = current_user"

subsection \<open>A sample random source and clock\<close>

text \<open>
  Every \<open>randint\<close> gives 100 and every \<open>random()\<close> gives 1/2, so both noise factors are 1.
  Day 739924 is Wednesday 2026-11-04.
\<close>

definition sample_entropy :: entropy where
  "sample_entropy =
     \<lparr>randint_draws = (\<lambda>k. 100), random_draws = (\<lambda>k. 1 / 2), uuid4_draws = (\<lambda>k. ''id'')\<rparr>"

definition sample_today :: int where
  "sample_today = 739924"

text \<open>A stored user, and the claims login and registration put into a token for her.\<close>

definition sample_user :: document where
  "sample_user =
     [''_id'' \<mapsto> ''65f0a1'', ''id'' \<mapsto> ''u-1'', ''email'' \<mapsto> ''alice@x.com'', ''name'' \<mapsto> ''Alice'',
      ''password_hash'' \<mapsto> ''$2b$12$abc'', ''created_at'' \<mapsto> ''2026-11-04T09:00:00+00:00'']"

definition sample_claims :: jwt_claims where
  "sample_claims = \<lparr>claim_sub = Some ''alice@x.com'', claim_exp = None\<rparr>"


text \<open>An outbound call that is never made: no ML URL is configured.\<close>

definition no_requests :: "string \<Rightarrow> string option \<Rightarrow> int \<Rightarrow> string upstream" where
  "no_requests url drug_filter days = Raised ''unused''"

subsection \<open>The mock forecast in the words of the specification\<close>


definition spec_matches :: "string option \<Rightarrow> sale \<Rightarrow> bool" where
  "spec_matches drug_filter s =
     (case drug_filter of None \<Rightarrow> True | Some dr \<Rightarrow> dr = [] \<or> lower (drug_name s) = lower dr)"







text \<open>
  The units of all catalog drugs on the day \<open>n\<close> days before \<open>b\<close>, in the rows of one call.
\<close>

abbreviation day_units :: "entropy \<Rightarrow> int \<Rightarrow> nat \<Rightarrow> int" where
  "day_units e b n \<equiv> sum_list (map units_sold (day_rows e (b - int n) (n * 10) DRUGS_DATA))"

section \<open>Properties\<close>

subsection \<open>Tokens: round trip and expiry\<close>

text \<open>
  C1. For every email \<open>e\<close>, a token issued for subject \<open>e\<close> with the 1440 minutes that login
  and registration pass verifies to \<open>sub = e\<close> at every time strictly before issuance
  plus 1440 minutes, so that \<open>get_current_user\<close> looks the user \<open>e\<close> up; at every time at or
  after issuance plus 1440 minutes verification fails as expired and \<open>get_current_user\<close>
  rejects the token with 401.
\<close>

theorem token_round_trip_and_expiry:
  "(let tok = create_access_token key issued \<lparr>claim_sub = Some e, claim_exp = None\<rparr>
                (Some (timedelta_minutes ACCESS_TOKEN_EXPIRE_MINUTES))
    in (now < issued + timedelta_minutes 1440 \<longrightarrow>
          (\<exists>payload. jwt_decode tok key now = Inr payload \<and> claim_sub payload = Some e)
          \<and> get_current_user key users now tok
              = (case find_one users e [''_id'', ''password_hash''] of
                   None \<Rightarrow> Inl (HTTPException 401 ''User not found'')
                 | Some user \<Rightarrow> Inr user))
     \<and> (issued + timedelta_minutes 1440 \<le> now \<longrightarrow>
          jwt_decode tok key now = Inl ExpiredSignatureError
          \<and> get_current_user key users now tok = Inl (HTTPException 401 ''Invalid token'')))"
  by (simp add: create_access_token_def jwt_encode_def jwt_decode_def get_current_user_def
      timedelta_minutes_def ACCESS_TOKEN_EXPIRE_MINUTES_def Let_def)

theorem token_round_trip_and_expiry_witness:
  "(1000::int) + 86399 < 1000 + timedelta_minutes 1440
   \<and> jwt_decode (create_access_token ''k'' 1000 sample_claims (Some (timedelta_minutes ACCESS_TOKEN_EXPIRE_MINUTES)))
        ''k'' (1000 + 86399) = Inr \<lparr>claim_sub = Some ''alice@x.com'', claim_exp = Some 87400\<rparr>
   \<and> (1000::int) + timedelta_minutes 1440 \<le> 87400
   \<and> get_current_user ''k'' [sample_user] 87400
        (create_access_token ''k'' 1000 sample_claims (Some (timedelta_minutes ACCESS_TOKEN_EXPIRE_MINUTES)))
       = Inl (HTTPException 401 ''Invalid token'')"
proof -
  have a: "(1000::int) + 86399 < 1000 + timedelta_minutes 1440"
    and b: "(1000::int) + timedelta_minutes 1440 \<le> 87400"
    by (simp_all add: timedelta_minutes_def)
  note T = token_round_trip_and_expiry [where now = "1000 + 86399" and issued = 1000 and key = "''k''"
      and e = "''alice@x.com''" and users = "[sample_user]"]
  note U = token_round_trip_and_expiry [where now = 87400 and issued = 1000 and key = "''k''"
      and e = "''alice@x.com''" and users = "[sample_user]"]
  from T a obtain payload where
    p: "jwt_decode (create_access_token ''k'' 1000 sample_claims (Some (timedelta_minutes ACCESS_TOKEN_EXPIRE_MINUTES)))
        ''k'' (1000 + 86399) = Inr payload" and "claim_sub payload = Some ''alice@x.com''"
    unfolding Let_def sample_claims_def by blast
  from U b have
    q: "get_current_user ''k'' [sample_user] 87400
        (create_access_token ''k'' 1000 sample_claims (Some (timedelta_minutes ACCESS_TOKEN_EXPIRE_MINUTES)))
       = Inl (HTTPException 401 ''Invalid token'')"
    unfolding Let_def sample_claims_def by blast
  from p have "payload = \<lparr>claim_sub = Some ''alice@x.com'', claim_exp = Some 87400\<rparr>"
    by (simp add: create_access_token_def jwt_encode_def jwt_decode_def sample_claims_def
        timedelta_minutes_def ACCESS_TOKEN_EXPIRE_MINUTES_def Let_def split: if_splits)
  with p a b q show ?thesis by simp
qed

subsection \<open>The authorization dependency\<close>

lemma find_one_hidden:
  "find_one users email hidden = Some user \<Longrightarrow> h \<in> set hidden \<Longrightarrow> user h = None"
  by (auto simp add: find_one_def project_out_def)

text \<open>
  C2. A protected request is rejected with 401 when its bearer token is absent, when the
  token fails verification (signature, format or expiry), when the payload has no \<open>sub\<close>,
  and when no user is stored under the \<open>sub\<close> email. Otherwise the dependency yields the
  stored user without its password hash (and without the store's \<open>_id\<close>), every other
  field unchanged, and the handler is called with exactly this user; a rejection
  reaches the client in place of the handler's result.
\<close>

theorem authorization_contract:
  "(authorization = None \<longrightarrow>
      (\<exists>detail. depends_get_current_user key users now authorization
                  = Inl (HTTPException 401 detail)))
   \<and> (authorization = Some tok \<and> jwt_decode tok key now = Inl err \<longrightarrow>
      (\<exists>detail. depends_get_current_user key users now authorization
                  = Inl (HTTPException 401 detail)))
   \<and> (authorization = Some tok \<and> jwt_decode tok key now = Inr payload
        \<and> claim_sub payload = None \<longrightarrow>
      (\<exists>detail. depends_get_current_user key users now authorization
                  = Inl (HTTPException 401 detail)))
   \<and> (authorization = Some tok \<and> jwt_decode tok key now = Inr payload
        \<and> claim_sub payload = Some email
        \<and> find (\<lambda>doc. doc ''email'' = Some email) users = None \<longrightarrow>
      (\<exists>detail. depends_get_current_user key users now authorization
                  = Inl (HTTPException 401 detail)))
   \<and> (authorization = Some tok \<and> jwt_decode tok key now = Inr payload
        \<and> claim_sub payload = Some email
        \<and> find (\<lambda>doc. doc ''email'' = Some email) users = Some stored \<longrightarrow>
      (\<exists>user. depends_get_current_user key users now authorization = Inr user
         \<and> user ''password_hash'' = None
         \<and> (\<forall>field. field \<noteq> ''_id'' \<and> field \<noteq> ''password_hash'' \<longrightarrow> user field = stored field)
         \<and> protected_route handler key users now authorization = Inr (handler user)))
   \<and> (\<forall>exc. depends_get_current_user key users now authorization = Inl exc \<longrightarrow>
         protected_route handler key users now authorization = Inl exc)"
  by (auto simp add: depends_get_current_user_def security_def get_current_user_def
      protected_route_def find_one_def project_out_def split: sum.splits option.splits)

theorem authorization_contract_witness:
  "depends_get_current_user ''k'' [sample_user] 1000 None
     = Inl (HTTPException 401 ''Not authenticated'')
   \<and> depends_get_current_user ''k'' [sample_user] 1000 (Some (Malformed ''abc''))
     = Inl (HTTPException 401 ''Invalid token'')
   \<and> depends_get_current_user ''k'' [sample_user] 1000
        (Some (JWS ''k'' \<lparr>claim_sub = None, claim_exp = Some 5000\<rparr>))
     = Inl (HTTPException 401 ''Invalid token'')
   \<and> depends_get_current_user ''k'' [sample_user] 1000
        (Some (JWS ''k'' \<lparr>claim_sub = Some ''bob@x.com'', claim_exp = Some 5000\<rparr>))
     = Inl (HTTPException 401 ''User not found'')
   \<and> protected_route get_me ''k'' [sample_user] 1000
        (Some (JWS ''k'' \<lparr>claim_sub = Some ''alice@x.com'', claim_exp = Some 5000\<rparr>))
     = Inr (project_out [''_id'', ''password_hash''] sample_user)
   \<and> project_out [''_id'', ''password_hash''] sample_user ''password_hash'' = None
   \<and> project_out [''_id'', ''password_hash''] sample_user ''email'' = Some ''alice@x.com''
   \<and> protected_route get_me ''k'' [sample_user] 1000 None
     = Inl (HTTPException 401 ''Not authenticated'')"
proof -
  let ?alice = "JWS ''k'' \<lparr>claim_sub = Some ''alice@x.com'', claim_exp = Some 5000\<rparr>"
  have dec: "jwt_decode ?alice ''k'' 1000
               = Inr \<lparr>claim_sub = Some ''alice@x.com'', claim_exp = Some 5000\<rparr>"
    by (simp add: jwt_decode_def)
  have fnd: "find (\<lambda>doc. doc ''email'' = Some ''alice@x.com'') [sample_user] = Some sample_user"
    by (simp add: sample_user_def)
  from authorization_contract [where authorization = "Some ?alice" and tok = ?alice
      and key = "''k''" and now = 1000 and users = "[sample_user]" and email = "''alice@x.com''"
      and payload = "\<lparr>claim_sub = Some ''alice@x.com'', claim_exp = Some 5000\<rparr>"
      and stored = sample_user and handler = get_me] dec fnd
  obtain user where
    u: "depends_get_current_user ''k'' [sample_user] 1000 (Some ?alice) = Inr user"
    and r: "protected_route get_me ''k'' [sample_user] 1000 (Some ?alice) = Inr (get_me user)"
    by auto
  have fo: "find_one [sample_user] ''alice@x.com'' [''_id'', ''password_hash'']
              = Some (project_out [''_id'', ''password_hash''] sample_user)"
    unfolding find_one_def fnd by simp
  from u have "user = project_out [''_id'', ''password_hash''] sample_user"
    by (simp add: depends_get_current_user_def security_def get_current_user_def dec fo)
  with r have ok: "protected_route get_me ''k'' [sample_user] 1000 (Some ?alice)
                     = Inr (project_out [''_id'', ''password_hash''] sample_user)"
    by (simp add: get_me_def)
  have rej: "depends_get_current_user ''k'' [sample_user] 1000 None
     = Inl (HTTPException 401 ''Not authenticated'')"
    by (simp add: depends_get_current_user_def security_def)
  with authorization_contract [where authorization = None and key = "''k''" and now = 1000
      and users = "[sample_user]" and handler = get_me]
  have rej': "protected_route get_me ''k'' [sample_user] 1000 None
     = Inl (HTTPException 401 ''Not authenticated'')"
    by blast
  have "depends_get_current_user ''k'' [sample_user] 1000 (Some (Malformed ''abc''))
     = Inl (HTTPException 401 ''Invalid token'')"
    and "depends_get_current_user ''k'' [sample_user] 1000
        (Some (JWS ''k'' \<lparr>claim_sub = None, claim_exp = Some 5000\<rparr>))
     = Inl (HTTPException 401 ''Invalid token'')"
    and "depends_get_current_user ''k'' [sample_user] 1000
        (Some (JWS ''k'' \<lparr>claim_sub = Some ''bob@x.com'', claim_exp = Some 5000\<rparr>))
     = Inl (HTTPException 401 ''User not found'')"
    and "project_out [''_id'', ''password_hash''] sample_user ''password_hash'' = None"
    and "project_out [''_id'', ''password_hash''] sample_user ''email'' = Some ''alice@x.com''"
    by (simp_all add: depends_get_current_user_def security_def get_current_user_def
        jwt_decode_def find_one_def project_out_def sample_user_def)
  with ok rej rej' show ?thesis by simp
qed

subsection \<open>GET /predict with an external forecasting service\<close>

text \<open>
  C8. When an external ML URL is configured, GET /predict returns the upstream JSON body
  as it is when the outbound call succeeds, and for every failure of the call it returns
  normally (status 200) the payload with \<open>status = "error"\<close> and an error message: no
  exception and no HTTP error status reaches the client.
\<close>

theorem forecast_proxy_relay:
  assumes "url \<noteq> []"
  shows "(requests_get_json (url @ ''/predict'') drug_filter days = Body j \<longrightarrow>
            get_forecast (Some url) requests_get_json e now drug_filter days = Inr (Relayed j))
       \<and> (requests_get_json (url @ ''/predict'') drug_filter days = Raised exc \<longrightarrow>
            get_forecast (Some url) requests_get_json e now drug_filter days
              = Inr (ErrorPayload ''Failed to fetch from external ML API'' ''error''))"
  using assms by (simp add: get_forecast_def)

theorem forecast_proxy_relay_witness:
  "''http://ml:8000'' \<noteq> []
   \<and> get_forecast (Some ''http://ml:8000'') (\<lambda>u d n. Body ''{}'') sample_entropy sample_today None 30
       = Inr (Relayed ''{}'')
   \<and> get_forecast (Some ''http://ml:8000'') (\<lambda>u d n. Raised ''ConnectionError'') sample_entropy
        sample_today None 30
       = (Inr (ErrorPayload ''Failed to fetch from external ML API'' ''error'')
            :: py_error + string forecast_response)"
proof -
  have u: "''http://ml:8000'' \<noteq> []" by simp
  from forecast_proxy_relay [OF u, where requests_get_json = "\<lambda>u d n. Body ''{}''" and j = "''{}''"
      and e = sample_entropy and now = sample_today and drug_filter = None and days = 30]
  have a: "get_forecast (Some ''http://ml:8000'') (\<lambda>u d n. Body ''{}'') sample_entropy sample_today None 30
       = Inr (Relayed ''{}'')"
    by simp
  from forecast_proxy_relay [OF u, where requests_get_json = "\<lambda>u d n. Raised ''ConnectionError''"
      and exc = "''ConnectionError''" and e = sample_entropy and now = sample_today
      and drug_filter = None and days = 30]
  have b: "get_forecast (Some ''http://ml:8000'') (\<lambda>u d n. Raised ''ConnectionError'') sample_entropy
        sample_today None 30
       = (Inr (ErrorPayload ''Failed to fetch from external ML API'' ''error'')
            :: py_error + string forecast_response)"
    by simp
  from u a b show ?thesis by blast
qed

subsection \<open>Floating point: sign and evaluation\<close>

lemma round_half_even_nonneg: "0 \<le> y \<Longrightarrow> 0 \<le> round_half_even y"
  by (auto simp add: round_half_even_def Let_def)

lemma pow2_pos: "0 < pow2 e"
  by (simp add: pow2_def)

lemma fl_zero: "fl 0 = 0"
  by (simp add: fl_def)

lemma fl_nonneg:
  assumes "0 \<le> x"
  shows "0 \<le> fl x"
proof (cases "x = 0")
  case True
  then show ?thesis by (simp add: fl_zero)
next
  case False
  let ?e = "if 2 ^ 53 \<le> \<bar>x\<bar> then exp_up \<bar>x\<bar> 0 else exp_down \<bar>x\<bar> 0"
  have "0 \<le> \<bar>x\<bar> / pow2 ?e"
    using pow2_pos [of ?e] by (simp add: less_imp_le)
  then have "0 \<le> round_half_even (\<bar>x\<bar> / pow2 ?e)"
    by (rule round_half_even_nonneg)
  then have "0 \<le> of_int (round_half_even (\<bar>x\<bar> / pow2 ?e)) * pow2 ?e"
    using pow2_pos [of ?e] by (simp add: less_imp_le)
  moreover have "sgn x = 1" using assms False by simp
  ultimately show ?thesis
    using False by (simp add: fl_def Let_def)
qed

lemma fmul_nonneg: "0 \<le> x \<Longrightarrow> 0 \<le> y \<Longrightarrow> 0 \<le> fmul x y"
  by (simp add: fmul_def fl_nonneg)

lemma fl_minus: "fl (- x) = - fl x"
  by (simp add: fl_def Let_def sgn_minus)

lemma fl_minus_divide: "fl (- a / b) = - fl (a / b)"
  using fl_minus [of "a / b"] by simp

lemma exp_down_at:
  "2 ^ 52 \<le> a * 2 ^ k \<Longrightarrow> a * 2 ^ k < 2 ^ 53 \<Longrightarrow> int k \<le> 1074 + e
   \<Longrightarrow> exp_down a e = e - int k"
proof (induction k arbitrary: a e)
  case 0
  then show ?case by (simp add: exp_down.simps)
next
  case (Suc k)
  have "(1::real) \<le> 2 ^ k" by simp
  moreover have "0 \<le> a * 2"
  proof (rule ccontr)
    assume "\<not> 0 \<le> a * 2"
    then have "a * 2 ^ Suc k < 0" by (simp add: mult_less_0_iff)
    with Suc.prems(1) show False by simp
  qed
  ultimately have "a * 2 * 1 \<le> a * 2 * 2 ^ k" by (intro mult_left_mono) simp_all
  with Suc.prems(2) have "a * 2 < 2 ^ 53" by simp
  then have small: "a < 2 ^ 52" by simp
  from Suc.prems(3) have e: "- 1074 < e" by simp
  from Suc.prems have "exp_down (a * 2) (e - 1) = (e - 1) - int k"
    by (intro Suc.IH) (simp_all add: mult.assoc)
  with small e show ?case
    by (subst exp_down.simps) simp
qed

text \<open>
  The double nearest to a positive number below \<open>2 ^ 53\<close>, given the scale \<open>k\<close> of its
  binade.
\<close>

lemma fl_at:
  assumes "0 < x" and "2 ^ 52 \<le> x * 2 ^ k" and "x * 2 ^ k < 2 ^ 53" and "k \<le> 1074"
  shows "fl x = of_int (round_half_even (x * 2 ^ k)) / 2 ^ k"
proof -
  have "(1::real) \<le> 2 ^ k" by simp
  with assms(1) have "x * 1 \<le> x * 2 ^ k" by (intro mult_left_mono) simp_all
  then have "x \<le> x * 2 ^ k" by simp
  from this assms(3) have "x < 2 ^ 53" by (rule le_less_trans)
  with assms(1) have lt: "\<not> 2 ^ 53 \<le> \<bar>x\<bar>" by simp
  have e: "exp_down x 0 = - int k"
    using exp_down_at [OF assms(2) assms(3), of 0] assms(4) by simp
  have p: "pow2 (- int k) = 1 / 2 ^ k"
    by (cases "k = 0") (simp_all add: pow2_def)
  from assms(1) have "x \<noteq> 0" and "\<bar>x\<bar> = x" and "sgn x = 1" by simp_all
  with lt e p show ?thesis
    by (simp add: fl_def Let_def)
qed

text \<open>The binades of the values from \<open>2 ^ -5\<close> up to \<open>2 ^ 13\<close>.\<close>

lemmas fl_numeral =
  fl_zero fl_minus fl_minus_divide
  fl_at [where k = 40] fl_at [where k = 41] fl_at [where k = 42]
  fl_at [where k = 43] fl_at [where k = 44] fl_at [where k = 45]
  fl_at [where k = 46] fl_at [where k = 47] fl_at [where k = 48]
  fl_at [where k = 49] fl_at [where k = 50] fl_at [where k = 51]
  fl_at [where k = 52] fl_at [where k = 53] fl_at [where k = 54]
  fl_at [where k = 55] fl_at [where k = 56] fl_at [where k = 57]

lemmas float_ops = fadd_def fsub_def fmul_def fdiv_def uniform_def

lemmas float_eval = float_ops fl_numeral round_half_even_def Let_def

lemma fl_constants:
  "fl (7 / 10) = 3152519739159347 / 4503599627370496"
  "fl (13 / 10) = 5854679515581645 / 4503599627370496"
  "fl (9 / 10) = 8106479329266893 / 9007199254740992"
  "fl (11 / 10) = 2476979795053773 / 2251799813685248"
  "fl (12 / 10) = 5404319552844595 / 4503599627370496"
  "fl (8 / 10) = 3602879701896397 / 4503599627370496"
  "fl (1 / 10) = 3602879701896397 / 36028797018963968"
  "fl (85 / 100) = 7656119366529843 / 9007199254740992"
  "fl (115 / 100) = 2589569785738035 / 2251799813685248"
  by (simp_all add: float_eval)

lemma uniform_half:
  "uniform (fl (7 / 10)) (fl (13 / 10)) (1 / 2) = 1"
  "uniform (fl (9 / 10)) (fl (11 / 10)) (1 / 2) = 1"
  by (simp_all add: float_eval)

lemma uniform_nonneg:
  assumes "0 \<le> a" and "a \<le> b" and "0 \<le> u"
  shows "0 \<le> uniform a b u"
proof -
  have "0 \<le> fsub b a" using assms(2) by (simp add: fsub_def fl_nonneg)
  with assms(3) have "0 \<le> fmul (fsub b a) u" by (simp add: fmul_def fl_nonneg)
  with assms(1) show ?thesis by (simp add: uniform_def fadd_def fl_nonneg)
qed

subsection \<open>The generator: its rows and their fields\<close>

lemma length_DRUGS_DATA: "length DRUGS_DATA = 10"
  by (simp add: DRUGS_DATA_def)

lemma length_day_rows: "length (day_rows e d k gs) = length gs"
  by (induction gs arbitrary: k) simp_all

lemma length_all_rows: "length (all_rows e b k ns) = length ns * 10"
  by (induction ns arbitrary: k) (simp_all add: length_day_rows length_DRUGS_DATA)

lemma length_generate: "length (generate_mock_sales_data e b) = 1800"
  by (simp add: generate_mock_sales_data_def length_all_rows)

lemma py_int_nonneg: "0 \<le> x \<Longrightarrow> 0 \<le> py_int x"
  by (simp add: py_int_def)

lemma units_sold_make_sale_eq:
  "units_sold (make_sale e d k g)
     = py_int (fmul (fmul (of_int (randint_draws e k))
                       (if weekday d < 5 then fl (12 / 10) else fl (8 / 10)))
                 (uniform (fl (7 / 10)) (fl (13 / 10)) (random_draws e (2 * k))))"
  by (simp add: make_sale_def Let_def)

text \<open>
  The float product decides the units: on a weekday, 75 base units and a draw of 0.0
  give \<open>int(75 * 1.2 * 0.7)\<close>, which is 62, the product being just below 63.
\<close>

lemma units_sold_float_product:
  assumes "randint_draws e k = 75" and "random_draws e (2 * k) = 0" and "weekday d < 5"
  shows "units_sold (make_sale e d k g) = 62"
proof -
  have "py_int (fmul (fmul (of_int 75) (fl (12 / 10)))
                  (uniform (fl (7 / 10)) (fl (13 / 10)) 0)) = 62"
    by (simp add: py_int_def float_eval)
  with assms show ?thesis
    by (simp only: units_sold_make_sale_eq if_True)
qed

lemma units_sold_make_sale:
  assumes "entropy_ok e"
  shows "0 \<le> units_sold (make_sale e d k g)"
proof -
  have b: "0 \<le> (of_int (randint_draws e k) :: real)"
    using assms by (simp add: entropy_ok_def order_trans [of 0 50])
  have f: "0 \<le> (if weekday d < 5 then fl (12 / 10) else fl (8 / 10))"
    by (simp add: fl_nonneg)
  have "0 \<le> random_draws e (2 * k)"
    using assms by (simp add: entropy_ok_def)
  then have u: "0 \<le> uniform (fl (7 / 10)) (fl (13 / 10)) (random_draws e (2 * k))"
    by (intro uniform_nonneg) (simp_all add: fl_constants)
  from b f have "0 \<le> fmul (of_int (randint_draws e k))
                        (if weekday d < 5 then fl (12 / 10) else fl (8 / 10))"
    by (rule fmul_nonneg)
  from this u have "0 \<le> fmul (fmul (of_int (randint_draws e k))
                              (if weekday d < 5 then fl (12 / 10) else fl (8 / 10)))
                        (uniform (fl (7 / 10)) (fl (13 / 10)) (random_draws e (2 * k)))"
    by (rule fmul_nonneg)
  then show ?thesis
    by (simp add: make_sale_def Let_def py_int_nonneg)
qed

lemma day_rows_make_sale:
  "s \<in> set (day_rows e d k gs) \<Longrightarrow> \<exists>k' g. s = make_sale e d k' g"
  by (induction gs arbitrary: k) auto

lemma all_rows_make_sale:
  "s \<in> set (all_rows e b k ns) \<Longrightarrow> \<exists>d k' g. s = make_sale e d k' g"
proof (induction ns arbitrary: k)
  case Nil
  then show ?case by simp
next
  case (Cons n ns)
  from Cons.prems consider "s \<in> set (day_rows e (b - int n) k DRUGS_DATA)"
    | "s \<in> set (all_rows e b (k + length DRUGS_DATA) ns)"
    by auto
  then show ?case
  proof cases
    case 1
    then show ?thesis by (blast dest: day_rows_make_sale)
  next
    case 2
    then show ?thesis by (rule Cons.IH)
  qed
qed

lemma drug_name_make_sale: "drug_name (make_sale e d k g) = name g"
  by (simp add: make_sale_def Let_def)

lemma date_make_sale: "date (make_sale e d k g) = d"
  by (simp add: make_sale_def Let_def)

lemma dates_day_rows:
  "map date (filter (\<lambda>s. drug_name s = nm) (day_rows e d k gs))
     = map (\<lambda>g. d) (filter (\<lambda>g. name g = nm) gs)"
  by (induction gs arbitrary: k) (simp_all add: drug_name_make_sale date_make_sale)

lemma distinct_catalog_names: "distinct (map name DRUGS_DATA)"
  by (simp add: DRUGS_DATA_def)

lemma filter_key_once:
  "distinct (map f xs) \<Longrightarrow> g \<in> set xs \<Longrightarrow> filter (\<lambda>x. f x = f g) xs = [g]"
proof (induction xs)
  case Nil
  then show ?case by simp
next
  case (Cons x xs)
  show ?case
  proof (cases "x = g")
    case True
    with Cons.prems have "f g \<notin> f ` set xs"
      by simp
    then have "filter (\<lambda>x. f x = f g) xs = []"
      by (simp add: filter_empty_conv image_iff) metis
    with True show ?thesis by simp
  next
    case False
    with Cons.prems have "g \<in> set xs" and "f x \<noteq> f g" and "distinct (map f xs)"
      by auto
    with Cons.IH show ?thesis by simp
  qed
qed

lemma catalog_name_once:
  "g \<in> set DRUGS_DATA \<Longrightarrow> filter (\<lambda>x. name x = name g) DRUGS_DATA = [g]"
  by (rule filter_key_once [OF distinct_catalog_names])

lemma dates_all_rows:
  assumes "g \<in> set DRUGS_DATA"
  shows "map date (filter (\<lambda>s. drug_name s = name g) (all_rows e b k ns))
           = map (\<lambda>n. b - int n) ns"
proof (induction ns arbitrary: k)
  case Nil
  then show ?case by simp
next
  case (Cons n ns)
  show ?case
    by (simp add: dates_day_rows Cons.IH catalog_name_once [OF assms])
qed

lemma keys_day_rows:
  "map (\<lambda>s. (drug_name s, date s)) (day_rows e d k gs) = map (\<lambda>g. (name g, d)) gs"
  by (induction gs arbitrary: k) (simp_all add: drug_name_make_sale date_make_sale)

lemma date_all_rows_mem:
  "s \<in> set (all_rows e b k ns) \<Longrightarrow> date s \<in> (\<lambda>n. b - int n) ` set ns"
proof (induction ns arbitrary: k)
  case Nil
  then show ?case by simp
next
  case (Cons n ns)
  then show ?case
    by (auto dest!: day_rows_make_sale simp add: date_make_sale)
qed

lemma distinct_keys_all_rows:
  "distinct ns \<Longrightarrow> distinct (map (\<lambda>s. (drug_name s, date s)) (all_rows e b k ns))"
proof (induction ns arbitrary: k)
  case Nil
  then show ?case by simp
next
  case (Cons n ns)
  have d: "distinct (map (\<lambda>g. (name g, b - int n)) DRUGS_DATA)"
    using distinct_catalog_names by (simp add: distinct_map inj_on_def)
  have "\<And>s. s \<in> set (all_rows e b (k + length DRUGS_DATA) ns) \<Longrightarrow> date s \<noteq> b - int n"
    using Cons.prems by (auto dest!: date_all_rows_mem)
  then have x: "set (map (\<lambda>g. (name g, b - int n)) DRUGS_DATA)
        \<inter> set (map (\<lambda>s. (drug_name s, date s)) (all_rows e b (k + length DRUGS_DATA) ns)) = {}"
    by fastforce
  from Cons d x show ?case
    by (simp add: keys_day_rows)
qed

subsection \<open>The generated series\<close>

text \<open>
  C3. Every call of the generator returns exactly 180 * 10 = 1800 rows; every row has
  \<open>units_sold \<ge> 0\<close>; for each of the 10 catalog drugs the dates of its rows are today,
  yesterday, ... down to 179 days before today, each once; and no (drug, date) pair
  occurs twice in the output of one call.
\<close>

theorem generate_mock_sales_data_invariant:
  assumes "entropy_ok e"
  shows "length (generate_mock_sales_data e today) = 180 * 10
       \<and> (\<forall>s \<in> set (generate_mock_sales_data e today). 0 \<le> units_sold s)
       \<and> (\<forall>g \<in> set DRUGS_DATA.
            map date (filter (\<lambda>s. drug_name s = name g) (generate_mock_sales_data e today))
              = map (\<lambda>n. today - int n) [0..<180])
       \<and> distinct (map (\<lambda>s. (drug_name s, date s)) (generate_mock_sales_data e today))"
proof -
  have u: "\<forall>s \<in> set (generate_mock_sales_data e today). 0 \<le> units_sold s"
    unfolding generate_mock_sales_data_def
    using units_sold_make_sale [OF assms] by (auto dest!: all_rows_make_sale)
  have d: "\<forall>g \<in> set DRUGS_DATA.
            map date (filter (\<lambda>s. drug_name s = name g) (generate_mock_sales_data e today))
              = map (\<lambda>n. today - int n) [0..<180]"
    unfolding generate_mock_sales_data_def by (simp add: dates_all_rows)
  have k: "distinct (map (\<lambda>s. (drug_name s, date s)) (generate_mock_sales_data e today))"
    unfolding generate_mock_sales_data_def by (rule distinct_keys_all_rows) simp
  from u d k show ?thesis by (simp add: length_generate)
qed

theorem generate_mock_sales_data_invariant_witness:
  "entropy_ok sample_entropy
   \<and> length (generate_mock_sales_data sample_entropy sample_today) = 1800
   \<and> generate_mock_sales_data sample_entropy sample_today ! 0
         \<in> set (generate_mock_sales_data sample_entropy sample_today)
   \<and> 0 \<le> units_sold (generate_mock_sales_data sample_entropy sample_today ! 0)
   \<and> DRUGS_DATA ! 9 \<in> set DRUGS_DATA
   \<and> map date (filter (\<lambda>s. drug_name s = ''Gabapentin'')
                  (generate_mock_sales_data sample_entropy sample_today))
       = map (\<lambda>n. sample_today - int n) [0..<180]
   \<and> distinct (map (\<lambda>s. (drug_name s, date s))
                  (generate_mock_sales_data sample_entropy sample_today))"
proof -
  have ok: "entropy_ok sample_entropy"
    by (simp add: entropy_ok_def sample_entropy_def)
  note T = generate_mock_sales_data_invariant [OF ok, of sample_today]
  have m: "generate_mock_sales_data sample_entropy sample_today ! 0
             \<in> set (generate_mock_sales_data sample_entropy sample_today)"
    by (rule nth_mem) (simp add: length_generate)
  have g: "DRUGS_DATA ! 9 \<in> set DRUGS_DATA"
    by (rule nth_mem) (simp add: length_DRUGS_DATA)
  have nm: "name (DRUGS_DATA ! 9) = ''Gabapentin''"
    by (simp add: DRUGS_DATA_def)
  from T m have u: "0 \<le> units_sold (generate_mock_sales_data sample_entropy sample_today ! 0)"
    by blast
  from T g have "map date (filter (\<lambda>s. drug_name s = name (DRUGS_DATA ! 9))
                  (generate_mock_sales_data sample_entropy sample_today))
       = map (\<lambda>n. sample_today - int n) [0..<180]"
    by blast
  then have d: "map date (filter (\<lambda>s. drug_name s = ''Gabapentin'')
                  (generate_mock_sales_data sample_entropy sample_today))
       = map (\<lambda>n. sample_today - int n) [0..<180]"
    by (simp only: nm)
  from T have l: "length (generate_mock_sales_data sample_entropy sample_today) = 1800"
    by simp
  from T have k: "distinct (map (\<lambda>s. (drug_name s, date s))
                  (generate_mock_sales_data sample_entropy sample_today))"
    by blast
  from ok l m u g d k show ?thesis by blast
qed

subsection \<open>GET /sales/metrics: totals and the category breakdown\<close>

lemma round_half_even_of_int: "round_half_even (of_int n) = n"
  by (simp add: round_half_even_def)

lemma py_round2_cents:
  assumes "x * 100 \<in> \<int>"
  shows "py_round2 x = x"
proof -
  from assms obtain n :: int where n: "x * 100 = of_int n"
    by (auto elim: Ints_cases)
  then have "py_round2 x = of_int n / 100"
    by (simp add: py_round2_def round_half_even_of_int)
  also from n have "\<dots> = x" by simp
  finally show ?thesis .
qed

lemma py_round2_is_cents: "py_round2 x * 100 \<in> \<int>"
  by (simp add: py_round2_def)

lemma revenue_make_sale_cents: "revenue (make_sale e d k g) * 100 \<in> \<int>"
  by (simp add: make_sale_def Let_def py_round2_is_cents del: times_divide_eq_left)

lemma revenue_rows_cents:
  assumes "s \<in> set (all_rows e b k ns)"
  shows "revenue s * 100 \<in> \<int>"
proof -
  from all_rows_make_sale [OF assms] obtain d k' g where "s = make_sale e d k' g" by blast
  then show ?thesis by (simp only: revenue_make_sale_cents)
qed

lemma sum_list_cents:
  "(\<And>x. x \<in> set xs \<Longrightarrow> f x * 100 \<in> \<int>) \<Longrightarrow> sum_list (map f xs) * (100 :: real) \<in> \<int>"
  by (induction xs) (simp_all add: distrib_right)

lemma sum_list_round2_cents:
  "(\<And>x. x \<in> set xs \<Longrightarrow> f x * 100 \<in> \<int>)
   \<Longrightarrow> sum_list (map (\<lambda>x. py_round2 (f x)) xs) = sum_list (map f xs)"
  by (induction xs) (simp_all add: py_round2_cents)

lemma dict_set_absent: "k \<notin> set (map fst d) \<Longrightarrow> dict_set k v d = d @ [(k, v)]"
  by (induction d) auto

lemma keys_dict_set:
  "map fst (dict_set k v d) = (if k \<in> set (map fst d) then map fst d else map fst d @ [k])"
  by (induction d) (auto simp add: rev_image_eqI)


lemma revenue_dict_modify:
  "k \<in> set (map fst d) \<Longrightarrow>
   sum_list (map (\<lambda>(c, r, u). r) (dict_modify k (\<lambda>(r, u). (r + x, u + y)) d))
     = sum_list (map (\<lambda>(c, r, u). r) d) + (x :: real)"
  by (induction d) (auto simp add: rev_image_eqI)

lemma units_dict_modify:
  "k \<in> set (map fst d) \<Longrightarrow>
   sum_list (map (\<lambda>(c, r, u). u) (dict_modify k (\<lambda>(r, u). (r + x, u + y)) d))
     = sum_list (map (\<lambda>(c, r, u). u) d) + (y :: int)"
  by (induction d) (auto simp add: rev_image_eqI)

lemma cents_dict_modify:
  assumes "\<And>c r u. (c, r, u) \<in> set d \<Longrightarrow> r * 100 \<in> \<int>"
    and "x * 100 \<in> \<int>"
    and "(c, r, u) \<in> set (dict_modify k (\<lambda>(r, u). (r + x, u + (y :: int))) d)"
  shows "(r :: real) * 100 \<in> \<int>"
  using assms
proof (induction d)
  case Nil
  then show ?case by simp
next
  case (Cons p d)
  obtain c' r' u' where p: "p = (c', r', u')" by (cases p)
  show ?case
  proof (cases "c' = k")
    case True
    with Cons.prems(3) p consider "(c, r, u) = (c', r' + x, u' + y)" | "(c, r, u) \<in> set d"
      by auto
    then show ?thesis
    proof cases
      case 1
      from Cons.prems(1) [of c' r' u'] p have "r' * 100 \<in> \<int>" by simp
      from this Cons.prems(2) have "r' * 100 + x * 100 \<in> \<int>" by (rule Ints_add)
      with 1 show ?thesis by (simp add: distrib_right)
    next
      case 2
      with Cons.prems(1) show ?thesis by (meson list.set_intros(2))
    qed
  next
    case False
    with Cons.prems(3) p consider "(c, r, u) = p"
      | "(c, r, u) \<in> set (dict_modify k (\<lambda>(r, u). (r + x, u + y)) d)"
      by auto
    then show ?thesis
    proof cases
      case 1
      with Cons.prems(1) show ?thesis by (meson list.set_intros(1))
    next
      case 2
      show ?thesis
        by (rule Cons.IH [OF _ Cons.prems(2) 2]) (meson Cons.prems(1) list.set_intros(2))
    qed
  qed
qed


lemma revenue_category_step:
  "sum_list (map (\<lambda>(c, r, u). r) (category_step s cd))
     = sum_list (map (\<lambda>(c, r, u). r) cd) + revenue s"
  by (simp add: category_step_def Let_def revenue_dict_modify dict_set_absent keys_dict_set)

lemma units_category_step:
  "sum_list (map (\<lambda>(c, r, u). u) (category_step s cd))
     = sum_list (map (\<lambda>(c, r, u). u) cd) + units_sold s"
  by (simp add: category_step_def Let_def units_dict_modify dict_set_absent keys_dict_set)

lemma cents_category_step:
  assumes "\<And>c r u. (c, r, u) \<in> set cd \<Longrightarrow> r * 100 \<in> \<int>"
    and "revenue s * 100 \<in> \<int>"
    and "(c, r, u) \<in> set (category_step s cd)"
  shows "r * 100 \<in> \<int>"
proof (cases "sale_category s \<in> set (map fst cd)")
  case True
  with assms(3) have "(c, r, u) \<in> set (dict_modify (sale_category s)
      (\<lambda>(r, u). (r + revenue s, u + units_sold s)) cd)"
    by (simp add: category_step_def)
  from cents_dict_modify [OF assms(1) assms(2) this] show ?thesis .
next
  case False
  with assms(3) have m: "(c, r, u) \<in> set (dict_modify (sale_category s)
      (\<lambda>(r, u). (r + revenue s, u + units_sold s)) (cd @ [(sale_category s, 0, 0)]))"
    by (simp add: category_step_def dict_set_absent)
  have "\<And>c r u. (c, r, u) \<in> set (cd @ [(sale_category s, 0, 0)]) \<Longrightarrow> r * 100 \<in> \<int>"
    using assms(1) by auto
  from cents_dict_modify [OF this assms(2) m] show ?thesis .
qed

lemma fold_category_step:
  "sum_list (map (\<lambda>(c, r, u). r) (fold category_step xs cd))
     = sum_list (map (\<lambda>(c, r, u). r) cd) + sum_list (map revenue xs)
   \<and> sum_list (map (\<lambda>(c, r, u). u) (fold category_step xs cd))
     = sum_list (map (\<lambda>(c, r, u). u) cd) + sum_list (map units_sold xs)"
  by (induction xs arbitrary: cd) (simp_all add: revenue_category_step units_category_step)

lemma cents_fold_category_step:
  assumes "\<And>s. s \<in> set xs \<Longrightarrow> revenue s * 100 \<in> \<int>"
    and "\<And>c r u. (c, r, u) \<in> set cd \<Longrightarrow> r * 100 \<in> \<int>"
    and "(c, r, u) \<in> set (fold category_step xs cd)"
  shows "r * 100 \<in> \<int>"
  using assms
proof (induction xs arbitrary: cd)
  case Nil
  then show ?case by simp
next
  case (Cons x xs)
  have x: "revenue x * 100 \<in> \<int>" using Cons.prems(1) by simp
  have "\<And>c r u. (c, r, u) \<in> set (category_step x cd) \<Longrightarrow> r * 100 \<in> \<int>"
  proof -
    fix c r u
    assume a: "(c, r, u) \<in> set (category_step x cd)"
    show "r * 100 \<in> \<int>"
      by (rule cents_category_step [where cd = cd and s = x, OF _ x a]) (rule Cons.prems(2))
  qed
  moreover have "(c, r, u) \<in> set (fold category_step xs (category_step x cd))"
    using Cons.prems(3) by simp
  moreover have "\<And>s. s \<in> set xs \<Longrightarrow> revenue s * 100 \<in> \<int>"
    using Cons.prems(1) by simp
  ultimately show ?case using Cons.IH by blast
qed

lemma keys_fold_drug_step:
  "map fst dr = map fst du \<Longrightarrow>
   map fst (fst (fold drug_step xs (dr, du))) = map fst (snd (fold drug_step xs (dr, du)))"
  by (induction xs arbitrary: dr du) (simp_all add: drug_step_def keys_dict_set)

lemma top_drug_rows_total:
  "fst ` set tops \<subseteq> fst ` set du \<Longrightarrow> \<exists>rows. top_drug_rows tops du = Inr rows"
proof (induction tops)
  case Nil
  then show ?case by simp
next
  case (Cons p tops)
  obtain nm amount where p: "p = (nm, amount)" by (cases p)
  with Cons.prems have "nm \<in> fst ` set du" by simp
  then obtain u where "map_of du nm = Some u"
    by (metis domD dom_map_of_conv_image_fst)
  moreover from Cons obtain rows where "top_drug_rows tops du = Inr rows" by auto
  ultimately show ?case using p by simp
qed

text \<open>
  C6. For every generated series, the \<open>total_revenue\<close> the metrics endpoint reports is the
  sum of the revenues it reports per category, and its \<open>total_units\<close> is the sum of the
  units it reports per category; every reported revenue is the rounded one.
\<close>

theorem metrics_totals_additive:
  "\<exists>m. get_sales_metrics e now = Inr m
       \<and> total_revenue m = sum_list (map row_revenue (categories m))
       \<and> total_units m = sum_list (map row_units (categories m))"
proof -
  define recent where "recent = py_slice_to (generate_mock_sales_data e now) (30 * int (length DRUGS_DATA))"
  define cd where "cd = fold category_step recent []"
  define dd where "dd = fold drug_step recent ([], [])"
  define tops where "tops = take 5 (sort_key (\<lambda>(nm, amount). - amount) (fst dd))"
  have sub: "set recent \<subseteq> set (all_rows e now 0 [0..<180])"
    by (auto simp add: recent_def py_slice_to_def generate_mock_sales_data_def dest: in_set_takeD)
  have rc: "\<And>s. s \<in> set recent \<Longrightarrow> revenue s * 100 \<in> \<int>"
    using sub revenue_rows_cents by blast
  have cc: "\<And>c r u. (c, r, u) \<in> set cd \<Longrightarrow> r * 100 \<in> \<int>"
    unfolding cd_def by (rule cents_fold_category_step [OF rc]) simp_all
  have keys: "map fst (fst dd) = map fst (snd dd)"
    unfolding dd_def by (rule keys_fold_drug_step) simp
  have "set tops \<subseteq> set (fst dd)"
    by (auto simp add: tops_def dest: in_set_takeD)
  then have "fst ` set tops \<subseteq> fst ` set (snd dd)"
    using keys by (metis image_mono list.set_map)
  from top_drug_rows_total [OF this] obtain rows where rows: "top_drug_rows tops (snd dd) = Inr rows"
    by blast
  define m where "m = \<lparr>total_revenue = py_round2 (sum_list (map revenue recent)),
                  total_units = sum_list (map units_sold recent),
                  avg_daily_demand = py_round2 (fdiv (of_int (sum_list (map units_sold recent))) 30),
                  top_drugs = rows,
                  categories =
                    map (\<lambda>(cat, r, u). \<lparr>row_name = cat, row_revenue = py_round2 r, row_units = u\<rparr>) cd,
                  period = ''Last 30 days''\<rparr>"
  have res: "get_sales_metrics e now = Inr m"
    using rows
    by (simp add: get_sales_metrics_def Let_def m_def recent_def [symmetric] cd_def [symmetric]
        dd_def [symmetric] tops_def [symmetric] split_beta)
  have "sum_list (map row_revenue (categories m))
          = sum_list (map (\<lambda>x. py_round2 ((\<lambda>(c, r, u). r) x)) cd)"
    by (simp add: m_def comp_def case_prod_unfold)
  also have "\<dots> = sum_list (map (\<lambda>(c, r, u). r) cd)"
    by (rule sum_list_round2_cents) (use cc in auto)
  also have "\<dots> = sum_list (map revenue recent)"
    using fold_category_step [of recent "[]"] by (simp add: cd_def)
  also have "\<dots> = py_round2 (sum_list (map revenue recent))"
    by (rule py_round2_cents [symmetric], rule sum_list_cents, rule rc)
  finally have r: "total_revenue m = sum_list (map row_revenue (categories m))"
    by (simp add: m_def)
  have "sum_list (map row_units (categories m)) = sum_list (map (\<lambda>(c, r, u). u) cd)"
    by (simp add: m_def comp_def case_prod_unfold)
  also have "\<dots> = sum_list (map units_sold recent)"
    using fold_category_step [of recent "[]"] by (simp add: cd_def)
  finally have u: "total_units m = sum_list (map row_units (categories m))"
    by (simp add: m_def)
  from res r u show ?thesis by blast
qed

theorem metrics_totals_additive_witness:
  "\<exists>m. get_sales_metrics sample_entropy sample_today = Inr m
       \<and> total_revenue m = sum_list (map row_revenue (categories m))
       \<and> total_units m = sum_list (map row_units (categories m))"
  using metrics_totals_additive [of sample_entropy sample_today] .

lemma nth_day_rows: "j < length gs \<Longrightarrow> day_rows e d k gs ! j = make_sale e d (k + j) (gs ! j)"
proof (induction gs arbitrary: k j)
  case Nil
  then show ?case by simp
next
  case (Cons g gs)
  then show ?case by (cases j) simp_all
qed

lemma all_rows_append:
  "all_rows e b k (xs @ ys) = all_rows e b k xs @ all_rows e b (k + length xs * 10) ys"
  by (induction xs arbitrary: k) (simp_all add: length_DRUGS_DATA add.assoc)

lemma nth_all_rows:
  "i < length ns \<Longrightarrow> j < 10 \<Longrightarrow>
   all_rows e b k ns ! (i * 10 + j) = make_sale e (b - int (ns ! i)) (k + i * 10 + j) (DRUGS_DATA ! j)"
proof (induction ns arbitrary: k i)
  case Nil
  then show ?case by simp
next
  case (Cons n ns)
  show ?case
  proof (cases i)
    case 0
    with Cons.prems show ?thesis
      by (simp add: nth_append length_day_rows length_DRUGS_DATA nth_day_rows)
  next
    case (Suc i')
    with Cons.prems have "i' < length ns" by simp
    from Cons.IH [OF this Cons.prems(2), of "k + 10"] Suc show ?thesis
      by (simp add: nth_append length_day_rows length_DRUGS_DATA add.assoc add.commute add.left_commute)
  qed
qed

lemma take_generate:
  assumes "n \<le> 180"
  shows "take (n * 10) (generate_mock_sales_data e b) = all_rows e b 0 [0..<n]"
proof -
  have "[0..<180] = [0..<n] @ [n..<180]"
    using assms by (metis le_add_diff_inverse upt_add_eq_append zero_le)
  then have "generate_mock_sales_data e b = all_rows e b 0 [0..<n] @ all_rows e b (n * 10) [n..<180]"
    by (simp add: generate_mock_sales_data_def all_rows_append)
  then show ?thesis by (simp add: length_all_rows)
qed

subsection \<open>GET /sales returns the most recent days\<close>

text \<open>
  C9. For a request with \<open>0 \<le> days \<le> 180\<close> and no drug filter, GET /sales returns exactly
  the first \<open>days * 10\<close> rows of the freshly generated series: they are the rows of the
  \<open>days\<close> most recent days, the row of day \<open>n\<close> before today and catalog drug \<open>j\<close> at
  position \<open>n * 10 + j\<close>, and \<open>days = 7\<close> gives 70 rows.
\<close>

theorem get_sales_recent_slice:
  assumes "0 \<le> days" and "days \<le> 180"
  shows "sales (get_sales e now days None) = take (nat days * 10) (generate_mock_sales_data e now)
       \<and> sales (get_sales e now days None) = all_rows e now 0 [0..<nat days]
       \<and> total (get_sales e now days None) = nat days * 10
       \<and> (\<forall>n j. n < nat days \<longrightarrow> j < 10 \<longrightarrow>
            sales (get_sales e now days None) ! (n * 10 + j)
              = make_sale e (now - int n) (n * 10 + j) (DRUGS_DATA ! j))
       \<and> total (get_sales e now 7 None) = 70"
proof -
  have n: "nat days \<le> 180" using assms by simp
  have k: "nat (days * 10) = nat days * 10" using assms(1) by (simp add: nat_mult_distrib)
  have s: "sales (get_sales e now days None) = take (nat days * 10) (generate_mock_sales_data e now)"
    using assms(1) by (simp add: get_sales_def py_slice_to_def length_DRUGS_DATA k Let_def)
  have a: "sales (get_sales e now days None) = all_rows e now 0 [0..<nat days]"
    by (simp only: s take_generate [OF n])
  have t: "total (get_sales e now days None) = nat days * 10"
    using assms(1) n by (simp add: get_sales_def py_slice_to_def length_DRUGS_DATA k Let_def length_generate)
  have r: "\<forall>n j. n < nat days \<longrightarrow> j < 10 \<longrightarrow>
            sales (get_sales e now days None) ! (n * 10 + j)
              = make_sale e (now - int n) (n * 10 + j) (DRUGS_DATA ! j)"
    by (simp add: a nth_all_rows)
  have "total (get_sales e now 7 None) = 70"
    by (simp add: get_sales_def py_slice_to_def length_DRUGS_DATA Let_def length_generate)
  with s a t r show ?thesis by blast
qed

theorem get_sales_recent_slice_witness:
  "(0::int) \<le> 7 \<and> (7::int) \<le> 180
   \<and> total (get_sales sample_entropy sample_today 7 None) = 70
   \<and> (1::nat) < nat 7 \<and> (1::nat) < 10
   \<and> sales (get_sales sample_entropy sample_today 7 None) ! (1 * 10 + 1)
       = \<lparr>sale_id = ''id'', drug_name = ''Amoxicillin'', sale_category = ''Antibiotics'',
          units_sold = 120, revenue = 15588 / 10, date = 739923\<rparr>"
proof -
  have h1: "(0::int) \<le> 7" and h2: "(7::int) \<le> 180" and n: "(1::nat) < nat 7" and j: "(1::nat) < 10"
    by simp_all
  note T = get_sales_recent_slice [OF h1 h2, of sample_entropy sample_today]
  have amoxicillin: "DRUGS_DATA ! 1
      = \<lparr>name = ''Amoxicillin'', category = ''Antibiotics'', base_price = fl (1299 / 100)\<rparr>"
    by (simp add: DRUGS_DATA_def)
  have tuesday: "weekday (sample_today - int 1) = 1"
    by (simp add: weekday_def sample_today_def)
  from T have tot: "total (get_sales sample_entropy sample_today 7 None) = 70"
    by blast
  from T n j have "sales (get_sales sample_entropy sample_today 7 None) ! (1 * 10 + 1)
          = make_sale sample_entropy (sample_today - int 1) (1 * 10 + 1) (DRUGS_DATA ! 1)"
    by blast
  also have "\<dots> = \<lparr>sale_id = ''id'', drug_name = ''Amoxicillin'', sale_category = ''Antibiotics'',
          units_sold = 120, revenue = 15588 / 10, date = 739923\<rparr>"
    unfolding amoxicillin make_sale_def Let_def tuesday
    by (simp add: sample_entropy_def sample_today_def py_int_def py_round2_def float_eval)
  finally show ?thesis using h1 h2 n j tot by blast
qed

subsection \<open>GET /sales accepts every integer \<open>days\<close>\<close>

text \<open>
  C10. With no drug filter GET /sales returns, for every integer \<open>days\<close>, a prefix of the
  generated series: its first \<open>min (days * 10) 1800\<close> rows when \<open>days \<ge> 0\<close>, so that more
  than 180 days give all 1800 rows, and its first \<open>max 0 (1800 + days * 10)\<close> rows when
  \<open>days < 0\<close>, the slice dropping rows from the end. \<open>total\<close> is the number of rows
  returned. No value of \<open>days\<close> is rejected and none raises.
\<close>

theorem get_sales_total_any_days:
  "sales (get_sales e now days None)
     = take (nat (if 0 \<le> days then min (days * 10) 1800 else max 0 (1800 + days * 10)))
         (generate_mock_sales_data e now)
   \<and> total (get_sales e now days None) = length (sales (get_sales e now days None))
   \<and> int (total (get_sales e now days None))
     = (if 0 \<le> days then min (days * 10) 1800 else max 0 (1800 + days * 10))"
proof -
  let ?gen = "generate_mock_sales_data e now"
  let ?n = "if 0 \<le> days then min (days * 10) 1800 else max 0 (1800 + days * 10)"
  have s: "sales (get_sales e now days None) = py_slice_to ?gen (days * 10)"
    by (simp add: get_sales_def length_DRUGS_DATA Let_def)
  have t: "total (get_sales e now days None) = length (sales (get_sales e now days None))"
    by (simp add: get_sales_def Let_def)
  have "py_slice_to ?gen (days * 10) = take (nat ?n) ?gen"
  proof (cases "0 \<le> days")
    case True
    then have nn: "\<not> days * 10 < 0" by simp
    have "take (nat (days * 10)) ?gen = take (nat (min (days * 10) 1800)) ?gen"
    proof (cases "days * 10 \<le> 1800")
      case True
      then show ?thesis by (simp add: min_absorb1)
    next
      case False
      then have "take (nat (days * 10)) ?gen = ?gen"
        by (simp add: length_generate)
      moreover from False have "take (nat (min (days * 10) 1800)) ?gen = ?gen"
        by (simp add: length_generate min_absorb2)
      ultimately show ?thesis by simp
    qed
    with nn show ?thesis
      using \<open>0 \<le> days\<close> by (simp only: py_slice_to_def if_False if_True)
  next
    case False
    then have "nat (int (length ?gen) + days * 10) = nat (max 0 (1800 + days * 10))"
      by (simp add: length_generate)
    with False show ?thesis by (simp add: py_slice_to_def)
  qed
  with s have r: "sales (get_sales e now days None) = take (nat ?n) ?gen"
    by simp
  have "int (length (take (nat ?n) ?gen)) = ?n"
    by (simp add: length_generate)
  with r t have "int (total (get_sales e now days None)) = ?n"
    by simp
  with r t show ?thesis by blast
qed

theorem get_sales_total_any_days_witness:
  "sales (get_sales sample_entropy sample_today 200 None)
     = generate_mock_sales_data sample_entropy sample_today
   \<and> int (total (get_sales sample_entropy sample_today 200 None)) = 1800
   \<and> sales (get_sales sample_entropy sample_today (- 3) None)
     = take 1770 (generate_mock_sales_data sample_entropy sample_today)
   \<and> int (total (get_sales sample_entropy sample_today (- 3) None)) = 1770
   \<and> sales (get_sales sample_entropy sample_today (- 200) None) = []
   \<and> int (total (get_sales sample_entropy sample_today (- 200) None)) = 0"
  using get_sales_total_any_days [of sample_entropy sample_today 200]
    get_sales_total_any_days [of sample_entropy sample_today "- 3"]
    get_sales_total_any_days [of sample_entropy sample_today "- 200"]
  by (simp add: length_generate)

subsection \<open>GET /predict: the mock forecast\<close>

lemma dict_modify_append_absent:
  "k \<notin> set (map fst d) \<Longrightarrow> dict_modify k f (d @ [(k, v)]) = d @ [(k, f v)]"
  by (induction d) auto

lemma daily_step_same_day:
  assumes "\<And>s. s \<in> set xs \<Longrightarrow> date s = d" and "d \<notin> set (map fst acc)"
  shows "fold (daily_step None) xs (acc @ [(d, v)])
           = acc @ [(d, v + sum_list (map units_sold xs))]"
  using assms(1)
proof (induction xs arbitrary: v)
  case Nil
  show ?case by simp
next
  case (Cons s xs)
  have d: "date s = d" using Cons.prems by simp
  have "daily_step None s (acc @ [(d, v)]) = acc @ [(d, v + units_sold s)]"
    using assms(2) by (simp add: daily_step_def d dict_modify_append_absent)
  then show ?case
    using Cons.IH [of "v + units_sold s"] Cons.prems by (simp add: add.assoc)
qed

lemma daily_step_new_day:
  assumes "\<And>s. s \<in> set xs \<Longrightarrow> date s = d" and "d \<notin> set (map fst acc)" and "xs \<noteq> []"
  shows "fold (daily_step None) xs acc = acc @ [(d, sum_list (map units_sold xs))]"
proof (cases xs)
  case Nil
  with assms(3) show ?thesis by simp
next
  case (Cons s rest)
  have d: "date s = d" using assms(1) Cons by simp
  have "daily_step None s acc = acc @ [(d, units_sold s)]"
    using assms(2) by (simp add: daily_step_def d dict_set_absent dict_modify_append_absent)
  moreover have "\<And>s. s \<in> set rest \<Longrightarrow> date s = d"
    using assms(1) Cons by simp
  ultimately show ?thesis
    using daily_step_same_day [of rest d acc "units_sold s"] assms(2) Cons by simp
qed

lemma date_day_rows: "s \<in> set (day_rows e d k gs) \<Longrightarrow> date s = d"
  by (auto dest!: day_rows_make_sale simp add: date_make_sale)

lemma day_rows_nonempty: "day_rows e d k DRUGS_DATA \<noteq> []"
  by (simp add: DRUGS_DATA_def)

lemma daily_data_unfiltered:
  "(\<And>n. m \<le> n \<Longrightarrow> b - int n \<notin> set (map fst acc)) \<Longrightarrow>
   fold (daily_step None) (all_rows e b (m * 10) [m..<m + l]) acc
     = acc @ map (\<lambda>n. (b - int n, day_units e b n)) [m..<m + l]"
proof (induction l arbitrary: m acc)
  case 0
  show ?case by simp
next
  case (Suc l)
  let ?acc = "acc @ [(b - int m, day_units e b m)]"
  have u: "[m..<m + Suc l] = m # [Suc m..<Suc m + l]"
    by (simp add: upt_rec)
  have fresh: "b - int m \<notin> set (map fst acc)"
    using Suc.prems [of m] by simp
  have one: "fold (daily_step None) (day_rows e (b - int m) (m * 10) DRUGS_DATA) acc = ?acc"
    by (rule daily_step_new_day [OF date_day_rows fresh day_rows_nonempty])
  have fresh': "\<And>n. Suc m \<le> n \<Longrightarrow> b - int n \<notin> set (map fst ?acc)"
    using Suc.prems by force
  from Suc.IH [of "Suc m" ?acc, OF fresh']
  have "fold (daily_step None) (all_rows e b (Suc m * 10) [Suc m..<Suc m + l]) ?acc
          = ?acc @ map (\<lambda>n. (b - int n, day_units e b n)) [Suc m..<Suc m + l]"
    by simp
  then show ?case
    by (simp only: u all_rows.simps fold_append comp_apply one length_DRUGS_DATA)
       (simp add: add.commute)
qed

lemma insort_key_greatest:
  "\<forall>y \<in> set ys. f y < f x \<Longrightarrow> insort_key f x ys = ys @ [x]"
  by (induction ys) (auto simp add: not_le [symmetric])

lemma sort_key_descending:
  "sort_key fst (map (\<lambda>n. (b - int n, f n)) [0..<N])
     = map (\<lambda>n. (b - int n, (f n :: int))) (rev [0..<N])"
proof (induction N arbitrary: b f)
  case 0
  show ?case by simp
next
  case (Suc N)
  let ?h = "\<lambda>n. (b - int n, f n)"
  let ?g = "\<lambda>n. (b - 1 - int n, f (Suc n))"
  have u: "[0..<Suc N] = 0 # map Suc [0..<N]"
    by (simp only: map_Suc_upt upt_conv_Cons [of 0 "Suc N"] zero_less_Suc)
  have hg: "map ?h (map Suc [0..<N]) = map ?g [0..<N]"
    by simp
  have ih: "sort_key fst (map ?g [0..<N]) = map ?g (rev [0..<N])"
    by (rule Suc.IH [of "b - 1" "\<lambda>n. f (Suc n)"])
  have "sort_key fst (map ?h [0..<Suc N]) = insort_key fst (?h 0) (sort_key fst (map ?g [0..<N]))"
    by (simp only: u list.map hg sort_key_simps)
  also have "\<dots> = map ?g (rev [0..<N]) @ [?h 0]"
    unfolding ih by (rule insort_key_greatest) auto
  also have "\<dots> = map ?h (rev [0..<Suc N])"
    by (simp only: u rev.simps map_append list.map rev_map [symmetric] hg)
  finally show ?case .
qed


lemma forecast_history_unfiltered:
  "sort_key fst (fold (daily_step None)
       (py_slice_to (generate_mock_sales_data e now) (60 * int (length DRUGS_DATA))) [])
     = map (\<lambda>n. (now - int n, day_units e now n)) (rev [0..<60])"
proof -
  have "py_slice_to (generate_mock_sales_data e now) (60 * int (length DRUGS_DATA))
          = take (60 * 10) (generate_mock_sales_data e now)"
    by (simp add: py_slice_to_def length_DRUGS_DATA)
  also have "\<dots> = all_rows e now (0 * 10) [0..<0 + 60]"
    using take_generate [of 60 e now] by simp
  finally show ?thesis
    using daily_data_unfiltered [of 0 now "[]" e 60]
    by (simp only: sort_key_descending [symmetric]) simp
qed

lemma drop_rev_upt: "n \<le> N \<Longrightarrow> drop (N - n) (rev [0..<N]) = rev [0..<n]"
  by (simp add: drop_rev take_upt)

lemma moving_average_history:
  "moving_average (map f (rev [0..<60]))
     = (fdiv (of_int (sum_list (map f [0..<7]))) 7, fdiv (of_int (f 0 - f 6)) 7)"
proof -
  have s: "py_slice_from (map f (rev [0..<60])) (- 7) = map f (rev [0..<7])"
    using drop_rev_upt [of 7 60] by (simp add: py_slice_from_def drop_map)
  have "sum_list (map f (rev [0..<7])) = sum_list (map f [0..<7])"
    by (simp only: rev_map [symmetric] sum_list_rev)
  with s have a: "sum_list (py_slice_from (map f (rev [0..<60])) (- 7)) = sum_list (map f [0..<7])"
    by simp
  have l: "map f (rev [0..<60]) ! (length (map f (rev [0..<60])) - 1) = f 0"
    by (simp add: rev_nth)
  have b: "map f (rev [0..<60]) ! (length (map f (rev [0..<60])) - 7) = f 6"
    by (simp add: rev_nth)
  show ?thesis
    unfolding moving_average_def a l b by simp
qed

lemma forecast_unfiltered:
  "get_forecast None requests_get_json e now None days
     = (let avg = fdiv (of_int (sum_list (map (day_units e now) [0..<7]))) 7;
            trend = fdiv (of_int (day_units e now 0 - day_units e now 6)) 7;
            predicted_values = map (predict_value e 3600 avg trend) [1..days]
        in if 1 \<le> days \<and> max_ordinal < now + days then Inl OverflowError
           else
             Inr (Mock \<lparr>historical_dates = map (\<lambda>n. now - int n) (rev [0..<30]),
                 historical_values = map (day_units e now) (rev [0..<30]),
                 forecast_dates = map (\<lambda>i. now + i) [1..days],
                 predicted = predicted_values,
                 drug_label = ''All Drugs'',
                 forecast_status = ''mock'',
                 forecast_model = ''SARIMA (Mock)'',
                 ci_lower =
                   map (\<lambda>v. max 0 (py_int (fmul (of_int v) (fl (85 / 100))))) predicted_values,
                 ci_upper =
                   map (\<lambda>v. py_int (fmul (of_int v) (fl (115 / 100)))) predicted_values\<rparr>))"
proof -
  have d: "map fst (map (\<lambda>n. (now - int n, day_units e now n)) (rev [0..<60]))
             = map (\<lambda>n. now - int n) (rev [0..<60])"
    by (simp add: comp_def)
  have v: "map snd (map (\<lambda>n. (now - int n, day_units e now n)) (rev [0..<60]))
             = map (day_units e now) (rev [0..<60])"
    by (simp add: comp_def)
  have hd: "py_slice_from (map (\<lambda>n. now - int n) (rev [0..<60])) (- 30)
              = map (\<lambda>n. now - int n) (rev [0..<30])"
    using drop_rev_upt [of 30 60] by (simp add: py_slice_from_def drop_map)
  have hv: "py_slice_from (map (day_units e now) (rev [0..<60])) (- 30)
              = map (day_units e now) (rev [0..<30])"
    using drop_rev_upt [of 30 60] by (simp add: py_slice_from_def drop_map)
  have ne: "map (\<lambda>n. now - int n) (rev [0..<60]) \<noteq> []"
    by simp
  have la: "last (map (\<lambda>n. now - int n) (rev [0..<60])) = now"
    by (simp add: last_map last_rev hd_upt)
  show ?thesis
    unfolding get_forecast_def forecast_history_unfiltered Let_def d v hd hv la
      moving_average_history length_generate
    by (simp add: ne)
qed


lemma sample_units_sold:
  "units_sold (make_sale sample_entropy d k g) = (if weekday d < 5 then 120 else 80)"
proof -
  have w: "py_int (fmul (fmul (of_int 100) (fl (12 / 10)))
                     (uniform (fl (7 / 10)) (fl (13 / 10)) (1 / 2))) = 120"
    by (simp add: py_int_def float_eval)
  have h: "py_int (fmul (fmul (of_int 100) (fl (8 / 10)))
                     (uniform (fl (7 / 10)) (fl (13 / 10)) (1 / 2))) = 80"
    by (simp add: py_int_def float_eval)
  have "randint_draws sample_entropy k = 100" and "random_draws sample_entropy (2 * k) = 1 / 2"
    by (simp_all add: sample_entropy_def)
  then show ?thesis
    unfolding units_sold_make_sale_eq by (simp only: w h if_distrib [of "\<lambda>c. py_int (fmul (fmul (of_int 100) c) (uniform (fl (7 / 10)) (fl (13 / 10)) (1 / 2)))"])
qed

lemma sample_day_rows_units:
  "sum_list (map units_sold (day_rows sample_entropy d k gs))
     = (if weekday d < 5 then 120 else 80) * int (length gs)"
  by (induction gs arbitrary: k) (simp_all add: sample_units_sold algebra_simps)

lemma sample_day_units:
  "day_units sample_entropy b n = (if weekday (b - int n) < 5 then 1200 else 800)"
  by (simp add: sample_day_rows_units length_DRUGS_DATA)





lemma daily_step_filter:
  "daily_step drug_filter s acc
     = (if spec_matches drug_filter s then daily_step None s acc else acc)"
  by (auto simp add: daily_step_def spec_matches_def split: option.splits)

lemma fold_daily_step_filter:
  "fold (daily_step drug_filter) xs acc
     = fold (daily_step None) (filter (spec_matches drug_filter) xs) acc"
  by (induction xs arbitrary: acc) (simp_all add: daily_step_filter)
























lemma drug_name_day_rows:
  "s \<in> set (day_rows e d k gs) \<Longrightarrow> drug_name s \<in> name ` set gs"
  by (induction gs arbitrary: k) (auto simp add: drug_name_make_sale)

lemma drug_name_all_rows:
  "s \<in> set (all_rows e b k ns) \<Longrightarrow> drug_name s \<in> name ` set DRUGS_DATA"
  by (induction ns arbitrary: k) (auto dest: drug_name_day_rows)

lemma length_lower: "length (lower s) = length s"
  by (simp add: lower_def)

lemma unmatched_name:
  assumes "n \<in> name ` set DRUGS_DATA"
  shows "lower n \<noteq> lower ''zzz''"
proof
  assume "lower n = lower ''zzz''"
  then have "length (lower n) = length (lower ''zzz'')" by simp
  then have "length n = 3" by (simp add: length_lower)
  with assms show False by (auto simp add: DRUGS_DATA_def)
qed

lemma unmatched_history:
  "fold (daily_step (Some ''zzz''))
     (py_slice_to (generate_mock_sales_data e now) (60 * int (length DRUGS_DATA))) [] = []"
proof -
  let ?rows = "py_slice_to (generate_mock_sales_data e now) (60 * int (length DRUGS_DATA))"
  have "\<not> spec_matches (Some ''zzz'') s" if "s \<in> set ?rows" for s
  proof -
    from that have "s \<in> set (all_rows e now 0 [0..<180])"
      by (auto simp add: py_slice_to_def generate_mock_sales_data_def dest: in_set_takeD)
    then have "lower (drug_name s) \<noteq> lower ''zzz''"
      by (intro unmatched_name drug_name_all_rows)
    then show ?thesis by (simp add: spec_matches_def)
  qed
  then have "filter (spec_matches (Some ''zzz'')) ?rows = []"
    by (simp add: filter_empty_conv)
  then show ?thesis
    by (simp only: fold_daily_step_filter [of "Some ''zzz''" ?rows "[]"] fold_simps)
qed

lemma upto_1: "[1..1] = [1::int]"
  by (simp add: upto.simps)


text \<open>
  C7, as the specification words it, read in exact arithmetic and for every horizon,
  does not hold of the program. With a drug filter that matches no catalog drug the
  history is empty, the average is 100 and the one prediction of a one-day horizon is
  100; its upper bound is 114, the float product \<open>100 * 1.15\<close> being just below 115,
  where \<open>floor(100 * 1.15)\<close> is 115. And a horizon of 2912136 days from 2026-11-04
  passes 9999-12-31: the handler raises \<open>OverflowError\<close> and returns no forecast.
\<close>

theorem mock_forecast_float_and_overflow:
  "get_forecast None no_requests sample_entropy sample_today (Some ''zzz'') 1
     = Inr (Mock \<lparr>historical_dates = [],
             historical_values = [],
             forecast_dates = [739925],
             predicted = [100],
             drug_label = ''zzz'',
             forecast_status = ''mock'',
             forecast_model = ''SARIMA (Mock)'',
             ci_lower = [85],
             ci_upper = [114]\<rparr>)
   \<and> \<lfloor>(100 :: real) * (115 / 100)\<rfloor> = (115 :: int)
   \<and> get_forecast None no_requests sample_entropy sample_today None 2912136 = Inl OverflowError"
proof -
  have p: "predict_value sample_entropy 3600 100 0 1 = 100"
    by (simp add: predict_value_def sample_entropy_def py_int_def float_eval)
  have m: "moving_average [] = (100, 0)"
    by (simp add: moving_average_def)
  have 1: "get_forecast None no_requests sample_entropy sample_today (Some ''zzz'') 1
     = Inr (Mock \<lparr>historical_dates = [],
             historical_values = [],
             forecast_dates = [739925],
             predicted = [100],
             drug_label = ''zzz'',
             forecast_status = ''mock'',
             forecast_model = ''SARIMA (Mock)'',
             ci_lower = [85],
             ci_upper = [114]\<rparr>)"
    unfolding get_forecast_def Let_def unmatched_history length_generate upto_1
    by (simp add: m p py_slice_from_def max_ordinal_def sample_today_def py_int_def float_eval)
  have 2: "\<lfloor>(100 :: real) * (115 / 100)\<rfloor> = (115 :: int)"
    by simp
  have 3: "get_forecast None no_requests sample_entropy sample_today None 2912136
             = Inl OverflowError"
    unfolding forecast_unfiltered Let_def
    by (simp add: max_ordinal_def sample_today_def)
  from 1 2 3 show ?thesis by blast
qed



end
